theory Spec2Isabelle
  imports Main "HOL-Library.Word"
begin

section \<open>Subnet reconciliation of the OVS controller (pkg/ovssubnet/subnets.go)\<close>

text \<open>
  The theory embeds the master and node start-up routines, \<open>addNode\<close>, \<open>deleteNode\<close>,
  \<open>initSelfSubnet\<close> and the two watch loops of \<open>subnets.go\<close>. The controller works on
  three collaborators whose code is not part of the file: the registry (\<open>osdn.Registry\<close>),
  the subnet allocator (\<open>netutils.SubnetAllocator\<close>) and the flow controller. Each of
  them is modelled from the specification, and every call made on one of them is recorded
  in a call log, so that the order and the number of calls can be stated.
\<close>

subsection \<open>Data (pkg/ovssubnet/api)\<close>

record Node =
  Name :: string
  IP :: string

record Subnet =
  NodeIP :: string
  SubnetCIDR :: string

datatype EventType = Added | Deleted

record NodeEvent =
  NodeEventType :: EventType
  EventNode :: Node

record SubnetEvent =
  SubnetEventType :: EventType
  EventSubnet :: Subnet

text \<open>
  Go's \<open>net.IPNet\<close> for IPv4: the network address and the number of leading ones of the
  mask. Two networks overlap when they agree on the bits of the shorter prefix.
\<close>

record IPNet =
  network :: "32 word"
  prefixLen :: nat

definition overlaps :: "IPNet \<Rightarrow> IPNet \<Rightarrow> bool" where
  "overlaps a b =
     (let m = min (prefixLen a) (prefixLen b)
      in drop_bit (32 - m) (network a) = drop_bit (32 - m) (network b))"

text \<open>
  Go's \<open>net.ParseCIDR\<close> and \<open>IPNet.String\<close> are library functions; the controller is
  parametrised by them.
\<close>

record netlib =
  ParseCIDR :: "string \<Rightarrow> IPNet option"
  IPNetString :: "IPNet \<Rightarrow> string"

datatype error =
    RegistryUnavailable
  | SubnetNotFound
  | SubnetExists
  | NoSubnetsAvailable
  | InvalidNodeIP
  | InvalidCIDR
  | InvalidAllocatorConfig
  | SetupFailed
  | NilDereference
  | NoSubnetForHost error

datatype call =
    CallGetSubnets
  | CallGetSubnet string
  | CallCreateSubnet string Subnet
  | CallDeleteSubnet string
  | CallGetNodes
  | CallGetClusterNetworkCIDR
  | CallGetHostSubnetLength
  | CallGetServicesNetworkCIDR
  | CallGetNetwork
  | CallReleaseNetwork IPNet
  | CallSetup string string string nat
  | CallAddOFRules string string string
  | CallDelOFRules string string
  | CallSleep nat
  | CallStop

subsection \<open>The controller and its collaborators\<close>

text \<open>
  Modelled from the spec: the state of the registry (\<open>osdn.Registry\<close>, not in
  \<open>subnets.go\<close>). It holds the Subnet records keyed by node name, the node list and the
  cluster configuration. \<open>faults\<close> is the schedule of transient failures: each registry
  call consumes its head, and fails when the head is \<open>True\<close>; an empty schedule means
  that no further call fails.
\<close>

record Registry =
  subnets :: "(string \<times> Subnet) list"
  nodes :: "Node list"
  clusterNetworkCIDR :: string
  hostSubnetLength :: nat
  servicesNetworkCIDR :: string
  faults :: "bool list"

text \<open>
  Modelled from the spec: the state of the allocator (\<open>netutils.SubnetAllocator\<close>, not in
  \<open>subnets.go\<close>): the sub-ranges of the cluster network it may issue (\<open>pool\<close>) and its
  in-memory exclusion set (\<open>inUse\<close>).
\<close>

record SubnetAllocator =
  pool :: "IPNet list"
  inUse :: "IPNet list"

text \<open>
  Modelled from the spec: the state of the Forwarding Programmer (\<open>oc.flowController\<close>, not
  in \<open>subnets.go\<close>): whether its \<open>Setup\<close> is going to fail.
\<close>

record FlowController =
  setupFails :: bool

text \<open>
  \<open>OvsController\<close> with the fields \<open>subnets.go\<close> reads and writes. \<open>calls\<close> is the log of
  the calls made on the collaborators (and of \<open>time.Sleep\<close> and the stop request), oldest
  first. \<open>subnetAllocator\<close> is assigned by \<open>subnetStartMaster\<close> before the node watch and
  the sweep run, so it is never nil where \<open>addNode\<close> and \<open>deleteNode\<close> are called.
\<close>

record OvsController =
  registry :: Registry
  subnetAllocator :: SubnetAllocator
  flowController :: FlowController
  hostName :: string
  localIP :: string
  localSubnet :: "Subnet option"
  nodeMtu :: nat
  calls :: "call list"

definition logCall :: "OvsController \<Rightarrow> call \<Rightarrow> OvsController" where
  "logCall oc c = oc\<lparr>calls := calls oc @ [c]\<rparr>"

text \<open>
  Modelled from the spec: whether the next call on the Registry/Watch API fails (Transient
  I/O), as the failure schedule says.
\<close>

definition nextCallFails :: "OvsController \<Rightarrow> bool" where
  "nextCallFails oc = (case faults (registry oc) of [] \<Rightarrow> False | f # fs \<Rightarrow> f)"

text \<open>
  Modelled from the spec: a call on the Registry/Watch API, whose code is not in
  \<open>subnets.go\<close>. Every registry call is synchronous and may fail; the call is logged and
  consumes the next entry of the failure schedule, which decides whether it fails.
\<close>

definition registryCall :: "OvsController \<Rightarrow> call \<Rightarrow> bool \<times> OvsController" where
  "registryCall oc c =
     (nextCallFails oc,
      logCall (oc\<lparr>registry := (registry oc)\<lparr>faults := drop 1 (faults (registry oc))\<rparr>\<rparr>) c)"

text \<open>
  Modelled from the spec: \<open>GetSubnet(nodeName) -> (Subnet, error)\<close> of the registry, which
  is not in \<open>subnets.go\<close>. It returns the record keyed by the node name, and an error when
  there is none or when the call fails.
\<close>

definition registry_GetSubnet :: "OvsController \<Rightarrow> string \<Rightarrow> (error + Subnet) \<times> OvsController" where
  "registry_GetSubnet oc nodeName =
     (case registryCall oc (CallGetSubnet nodeName) of
        (failed, oc1) \<Rightarrow>
          if failed then (Inl RegistryUnavailable, oc1)
          else (case map_of (subnets (registry oc1)) nodeName of
                  None \<Rightarrow> (Inl SubnetNotFound, oc1)
                | Some sub \<Rightarrow> (Inr sub, oc1)))"

text \<open>
  Modelled from the spec: \<open>CreateSubnet(nodeName, Subnet) -> error\<close> of the registry, which
  is not in \<open>subnets.go\<close>. Subnets are keyed by node name, one per node: creating a record
  under a name that has one is an error (the controller deletes a record before it
  recreates it).
\<close>

definition registry_CreateSubnet ::
    "OvsController \<Rightarrow> string \<Rightarrow> Subnet \<Rightarrow> error option \<times> OvsController" where
  "registry_CreateSubnet oc nodeName sub =
     (case registryCall oc (CallCreateSubnet nodeName sub) of
        (failed, oc1) \<Rightarrow>
          if failed then (Some RegistryUnavailable, oc1)
          else (case map_of (subnets (registry oc1)) nodeName of
                  Some old \<Rightarrow> (Some SubnetExists, oc1)
                | None \<Rightarrow>
                    (None, oc1\<lparr>registry := (registry oc1)
                       \<lparr>subnets := subnets (registry oc1) @ [(nodeName, sub)]\<rparr>\<rparr>)))"

text \<open>
  Modelled from the spec: \<open>DeleteSubnet(nodeName) -> error\<close> of the registry, which is not
  in \<open>subnets.go\<close>. It removes the record keyed by the node name, and fails when there is
  none or when the call fails.
\<close>

definition registry_DeleteSubnet :: "OvsController \<Rightarrow> string \<Rightarrow> error option \<times> OvsController" where
  "registry_DeleteSubnet oc nodeName =
     (case registryCall oc (CallDeleteSubnet nodeName) of
        (failed, oc1) \<Rightarrow>
          if failed then (Some RegistryUnavailable, oc1)
          else (case map_of (subnets (registry oc1)) nodeName of
                  None \<Rightarrow> (Some SubnetNotFound, oc1)
                | Some old \<Rightarrow>
                    (None, oc1\<lparr>registry := (registry oc1)
                       \<lparr>subnets := filter (\<lambda>kv. fst kv \<noteq> nodeName) (subnets (registry oc1))\<rparr>\<rparr>)))"

text \<open>
  Modelled from the spec: \<open>GetSubnets() -> (Subnet[], resumptionMarker, error)\<close> of the
  registry, which is not in \<open>subnets.go\<close>; the resumption marker is left out.
\<close>

definition registry_GetSubnets :: "OvsController \<Rightarrow> (error + Subnet list) \<times> OvsController" where
  "registry_GetSubnets oc =
     (case registryCall oc CallGetSubnets of
        (failed, oc1) \<Rightarrow>
          if failed then (Inl RegistryUnavailable, oc1)
          else (Inr (map snd (subnets (registry oc1))), oc1))"

text \<open>
  Modelled from the spec: \<open>GetNodes() -> (Node[], resumptionMarker, error)\<close> of the
  registry, which is not in \<open>subnets.go\<close>; the resumption marker is left out.
\<close>

definition registry_GetNodes :: "OvsController \<Rightarrow> (error + Node list) \<times> OvsController" where
  "registry_GetNodes oc =
     (case registryCall oc CallGetNodes of
        (failed, oc1) \<Rightarrow>
          if failed then (Inl RegistryUnavailable, oc1)
          else (Inr (nodes (registry oc1)), oc1))"

text \<open>
  Modelled from the spec: \<open>GetClusterNetworkCIDR() -> (string, error)\<close> of the registry,
  which is not in \<open>subnets.go\<close>.
\<close>

definition registry_GetClusterNetworkCIDR :: "OvsController \<Rightarrow> (error + string) \<times> OvsController" where
  "registry_GetClusterNetworkCIDR oc =
     (case registryCall oc CallGetClusterNetworkCIDR of
        (failed, oc1) \<Rightarrow>
          if failed then (Inl RegistryUnavailable, oc1)
          else (Inr (clusterNetworkCIDR (registry oc1)), oc1))"

text \<open>
  Modelled from the spec: \<open>GetHostSubnetLength() -> (uint, error)\<close> of the registry, which
  is not in \<open>subnets.go\<close>.
\<close>

definition registry_GetHostSubnetLength :: "OvsController \<Rightarrow> (error + nat) \<times> OvsController" where
  "registry_GetHostSubnetLength oc =
     (case registryCall oc CallGetHostSubnetLength of
        (failed, oc1) \<Rightarrow>
          if failed then (Inl RegistryUnavailable, oc1)
          else (Inr (hostSubnetLength (registry oc1)), oc1))"

text \<open>
  Modelled from the spec: \<open>GetServicesNetworkCIDR() -> (string, error)\<close> of the registry,
  which is not in \<open>subnets.go\<close>.
\<close>

definition registry_GetServicesNetworkCIDR :: "OvsController \<Rightarrow> (error + string) \<times> OvsController" where
  "registry_GetServicesNetworkCIDR oc =
     (case registryCall oc CallGetServicesNetworkCIDR of
        (failed, oc1) \<Rightarrow>
          if failed then (Inl RegistryUnavailable, oc1)
          else (Inr (servicesNetworkCIDR (registry oc1)), oc1))"

text \<open>
  Modelled from the spec: the network the allocator issues next (the Allocator Contract
  issues non-overlapping sub-ranges of the parent CIDR): the first sub-range of the pool
  that overlaps no range of the exclusion set, if there is one.
\<close>

definition freeNetwork :: "SubnetAllocator \<Rightarrow> IPNet option" where
  "freeNetwork a = find (\<lambda>c. list_all (\<lambda>u. \<not> overlaps c u) (inUse a)) (pool a)"

text \<open>
  Modelled from the spec: \<open>GetNetwork() -> CIDR | ExhaustedError\<close> of the Allocator
  Contract, whose code is not in \<open>subnets.go\<close>. The allocator issues a free sub-range of
  the pool and adds it to its exclusion set; it fails when the pool has none.
\<close>

definition allocator_GetNetwork :: "OvsController \<Rightarrow> (error + IPNet) \<times> OvsController" where
  "allocator_GetNetwork oc =
     (let a = subnetAllocator oc; oc1 = logCall oc CallGetNetwork
      in case freeNetwork a of
           None \<Rightarrow> (Inl NoSubnetsAvailable, oc1)
         | Some sn \<Rightarrow> (Inr sn, oc1\<lparr>subnetAllocator := a\<lparr>inUse := inUse a @ [sn]\<rparr>\<rparr>))"

text \<open>
  Modelled from the spec: \<open>ReleaseNetwork(CIDR)\<close> of the Allocator Contract, whose code is
  not in \<open>subnets.go\<close>. The range is taken out of the exclusion set.
\<close>

definition allocator_ReleaseNetwork :: "OvsController \<Rightarrow> IPNet \<Rightarrow> OvsController" where
  "allocator_ReleaseNetwork oc ipnet =
     (let a = subnetAllocator oc
      in logCall (oc\<lparr>subnetAllocator := a\<lparr>inUse := removeAll ipnet (inUse a)\<rparr>\<rparr>)
           (CallReleaseNetwork ipnet))"

subsection \<open>addNode and deleteNode\<close>

definition addNode ::
    "netlib \<Rightarrow> OvsController \<Rightarrow> string \<Rightarrow> string \<Rightarrow> error option \<times> OvsController" where
  "addNode L oc nodeName nodeIP =
     (case allocator_GetNetwork oc of
        (Inl err, oc1) \<Rightarrow> (Some err, oc1)
      | (Inr sn, oc1) \<Rightarrow>
          if nodeIP = '''' \<or> nodeIP = ''127.0.0.1'' then (Some InvalidNodeIP, oc1)
          else registry_CreateSubnet oc1 nodeName
                 \<lparr>NodeIP = nodeIP, SubnetCIDR = IPNetString L sn\<rparr>)"

definition deleteNode ::
    "netlib \<Rightarrow> OvsController \<Rightarrow> string \<Rightarrow> error option \<times> OvsController" where
  "deleteNode L oc nodeName =
     (case registry_GetSubnet oc nodeName of
        (Inl err, oc1) \<Rightarrow> (Some err, oc1)
      | (Inr sub, oc1) \<Rightarrow>
          (case ParseCIDR L (SubnetCIDR sub) of
             None \<Rightarrow> (Some InvalidCIDR, oc1)
           | Some ipnet \<Rightarrow> registry_DeleteSubnet (allocator_ReleaseNetwork oc1 ipnet) nodeName))"

subsection \<open>The master: seeding, sweep and node watch\<close>



text \<open>Parsing a list of CIDRs: all of them, or none when one does not parse.\<close>

fun parseAll :: "netlib \<Rightarrow> string list \<Rightarrow> IPNet list option" where
  "parseAll L [] = Some []"
| "parseAll L (s # ss) =
     (case ParseCIDR L s of
        None \<Rightarrow> None
      | Some n \<Rightarrow> (case parseAll L ss of None \<Rightarrow> None | Some ns \<Rightarrow> Some (n # ns)))"


text \<open>
  Modelled from the spec: the List-then-Watch handshake \<open>watchAndGetResource\<close>, which is
  not in \<open>subnets.go\<close>. It fetches the snapshot with the getter, starts the watch and
  returns the snapshot once the watch is subscribed. The watch loop is a task of its own
  (\<open>watchNodes\<close> and \<open>watchSubnets\<close> below); what the caller gets is the getter's result.
\<close>

definition watchAndGetResource ::
    "OvsController \<Rightarrow> (OvsController \<Rightarrow> (error + 'a) \<times> OvsController)
       \<Rightarrow> (error + 'a) \<times> OvsController" where
  "watchAndGetResource oc getMethod = getMethod oc"

fun serveExistingNodes ::
    "netlib \<Rightarrow> OvsController \<Rightarrow> Node list \<Rightarrow> error option \<times> OvsController" where
  "serveExistingNodes L oc [] = (None, oc)"
| "serveExistingNodes L oc (node # rest) =
     (case registry_GetSubnet oc (Name node) of
        (Inr sub, oc1) \<Rightarrow> serveExistingNodes L oc1 rest
      | (Inl err, oc1) \<Rightarrow>
          (case addNode L oc1 (Name node) (IP node) of
             (Some err', oc2) \<Rightarrow> (Some err', oc2)
           | (None, oc2) \<Rightarrow> serveExistingNodes L oc2 rest))"


text \<open>The body of the \<open>nodeEvent\<close> case of the select in \<open>watchNodes\<close>.\<close>

definition watchNodes_event :: "netlib \<Rightarrow> OvsController \<Rightarrow> NodeEvent \<Rightarrow> OvsController" where
  "watchNodes_event L oc ev =
     (case NodeEventType ev of
        Added \<Rightarrow>
          (case registry_GetSubnet oc (Name (EventNode ev)) of
             (Inl err, oc1) \<Rightarrow> snd (addNode L oc1 (Name (EventNode ev)) (IP (EventNode ev)))
           | (Inr sub, oc1) \<Rightarrow>
               if NodeIP sub \<noteq> IP (EventNode ev) then
                 (case registry_DeleteSubnet oc1 (Name (EventNode ev)) of
                    (Some err, oc2) \<Rightarrow> oc2
                  | (None, oc2) \<Rightarrow>
                      snd (registry_CreateSubnet oc2 (Name (EventNode ev))
                             (sub\<lparr>NodeIP := IP (EventNode ev)\<rparr>)))
               else oc1)
      | Deleted \<Rightarrow> snd (deleteNode L oc (Name (EventNode ev))))"

text \<open>
  A watch loop blocks in a select on its event channel and on the shutdown channel
  \<open>oc.sig\<close>. The loop is run on the sequence of what its selects receive; it either has
  returned, or is blocked in the select when the sequence ends.
\<close>

datatype 'e received = Event 'e | Signal

datatype loop = is_Returned: Returned (controller: OvsController) | Selecting (controller: OvsController)

fun watchNodes :: "netlib \<Rightarrow> OvsController \<Rightarrow> NodeEvent received list \<Rightarrow> loop" where
  "watchNodes L oc [] = Selecting oc"
| "watchNodes L oc (Event ev # rest) = watchNodes L (watchNodes_event L oc ev) rest"
| "watchNodes L oc (Signal # rest) = Returned (logCall oc CallStop)"

subsection \<open>The node: bootstrap, sweep and subnet watch\<close>

definition retries :: nat where
  "retries = 20"

definition retryInterval :: nat where
  "retryInterval = 500"

text \<open>
  The retry loop of \<open>initSelfSubnet\<close>, with the loop variables \<open>i\<close>, \<open>err\<close> and \<open>subnet\<close>;
  \<open>retryInterval\<close> is in milliseconds.
\<close>

function initSelfSubnet_loop ::
    "nat \<Rightarrow> error option \<Rightarrow> Subnet option \<Rightarrow> OvsController
       \<Rightarrow> error option \<times> Subnet option \<times> OvsController" where
  "initSelfSubnet_loop i err subnet oc =
     (if i < retries then
        (case registry_GetSubnet oc (hostName oc) of
           (Inr sub, oc1) \<Rightarrow> (None, Some sub, oc1)
         | (Inl err', oc1) \<Rightarrow>
             initSelfSubnet_loop (i + 1) (Some err') None (logCall oc1 (CallSleep retryInterval)))
      else (err, subnet, oc))"
  by pat_completeness auto
termination
  by (relation "measure (\<lambda>(i, err, subnet, oc). retries - i)") auto

definition initSelfSubnet :: "OvsController \<Rightarrow> error option \<times> OvsController" where
  "initSelfSubnet oc =
     (case initSelfSubnet_loop 0 None None oc of
        (Some err, subnet, oc1) \<Rightarrow> (Some (NoSubnetForHost err), oc1)
      | (None, subnet, oc1) \<Rightarrow> (None, oc1\<lparr>localSubnet := subnet\<rparr>))"

text \<open>
  Modelled from the spec: \<open>Setup(ownSubnetCIDR, clusterCIDR, servicesCIDR, mtu) -> error\<close>
  of the Forwarding Programmer (\<open>oc.flowController\<close>, not in \<open>subnets.go\<close>). The call is
  logged, and fails when the flow controller says so.
\<close>

definition flowController_Setup ::
    "OvsController \<Rightarrow> string \<Rightarrow> string \<Rightarrow> string \<Rightarrow> nat \<Rightarrow> error option \<times> OvsController" where
  "flowController_Setup oc localSubnetCIDR clusterCIDR servicesCIDR mtu =
     (if setupFails (flowController oc)
      then (Some SetupFailed, logCall oc (CallSetup localSubnetCIDR clusterCIDR servicesCIDR mtu))
      else (None, logCall oc (CallSetup localSubnetCIDR clusterCIDR servicesCIDR mtu)))"

text \<open>
  Modelled from the spec: \<open>AddOFRules(peerIP, peerSubnetCIDR, ownIP)\<close> of the Forwarding
  Programmer, not in \<open>subnets.go\<close>. The call is logged.
\<close>

definition flowController_AddOFRules ::
    "OvsController \<Rightarrow> string \<Rightarrow> string \<Rightarrow> string \<Rightarrow> OvsController" where
  "flowController_AddOFRules oc nodeIP subnetCIDR ownIP =
     logCall oc (CallAddOFRules nodeIP subnetCIDR ownIP)"

text \<open>
  Modelled from the spec: \<open>DelOFRules(peerIP, ownIP)\<close> of the Forwarding Programmer, not in
  \<open>subnets.go\<close>. The call is logged.
\<close>

definition flowController_DelOFRules :: "OvsController \<Rightarrow> string \<Rightarrow> string \<Rightarrow> OvsController" where
  "flowController_DelOFRules oc nodeIP ownIP = logCall oc (CallDelOFRules nodeIP ownIP)"

text \<open>
  \<open>oc.localSubnet\<close> is a pointer: reading its \<open>SubnetCIDR\<close> when it is nil panics.
\<close>

definition subnetStartNode :: "OvsController \<Rightarrow> error option \<times> OvsController" where
  "subnetStartNode oc =
     (case initSelfSubnet oc of
        (Some err, oc1) \<Rightarrow> (Some err, oc1)
      | (None, oc1) \<Rightarrow>
          (case registry_GetClusterNetworkCIDR oc1 of
             (Inl err, oc2) \<Rightarrow> (Some err, oc2)
           | (Inr clusterCIDR, oc2) \<Rightarrow>
               (case registry_GetServicesNetworkCIDR oc2 of
                  (Inl err, oc3) \<Rightarrow> (Some err, oc3)
                | (Inr servicesCIDR, oc3) \<Rightarrow>
                    (case localSubnet oc3 of
                       None \<Rightarrow> (Some NilDereference, oc3)
                     | Some own \<Rightarrow>
                         (case flowController_Setup oc3 (SubnetCIDR own) clusterCIDR
                                 servicesCIDR (nodeMtu oc3) of
                            (Some err, oc4) \<Rightarrow> (Some err, oc4)
                          | (None, oc4) \<Rightarrow>
                              (case watchAndGetResource oc4 registry_GetSubnets of
                                 (Inl err, oc5) \<Rightarrow> (Some err, oc5)
                               | (Inr subs, oc5) \<Rightarrow>
                                   (None,
                                    foldl (\<lambda>c s. flowController_AddOFRules c (NodeIP s)
                                                    (SubnetCIDR s) (localIP c))
                                      oc5 subs)))))))"

text \<open>The body of the \<open>clusterEvent\<close> case of the select in \<open>watchSubnets\<close>.\<close>

definition watchSubnets_event :: "OvsController \<Rightarrow> SubnetEvent \<Rightarrow> OvsController" where
  "watchSubnets_event oc ev =
     (case SubnetEventType ev of
        Added \<Rightarrow>
          flowController_AddOFRules oc (NodeIP (EventSubnet ev)) (SubnetCIDR (EventSubnet ev))
            (localIP oc)
      | Deleted \<Rightarrow> flowController_DelOFRules oc (NodeIP (EventSubnet ev)) (localIP oc))"

fun watchSubnets :: "OvsController \<Rightarrow> SubnetEvent received list \<Rightarrow> loop" where
  "watchSubnets oc [] = Selecting oc"
| "watchSubnets oc (Event ev # rest) = watchSubnets (watchSubnets_event oc ev) rest"
| "watchSubnets oc (Signal # rest) = Returned (logCall oc CallStop)"

text \<open>
  What one failed round of the retry loop does to the controller (the lookup and the
  sleep), and the result of the lookup that the loop makes after \<open>j\<close> failed rounds.
\<close>

definition afterFailedLookup :: "OvsController \<Rightarrow> OvsController" where
  "afterFailedLookup oc =
     logCall (snd (registry_GetSubnet oc (hostName oc))) (CallSleep retryInterval)"

definition attempt :: "OvsController \<Rightarrow> nat \<Rightarrow> error + Subnet" where
  "attempt oc j = fst (registry_GetSubnet ((afterFailedLookup ^^ j) oc) (hostName oc))"

text \<open>The calls that install or remove forwarding rules.\<close>

definition isRuleCall :: "call \<Rightarrow> bool" where
  "isRuleCall c =
     (case c of
        CallAddOFRules nodeIP subnetCIDR ownIP \<Rightarrow> True
      | CallDelOFRules nodeIP ownIP \<Rightarrow> True
      | _ \<Rightarrow> False)"

definition ruleCalls :: "call list \<Rightarrow> call list" where
  "ruleCalls cs = filter isRuleCall cs"

text \<open>
  The CIDRs of the live Subnet records, in the order of the registry, and what the
  no-overlap property says of them: every one parses, and the parsed networks are
  pairwise non-overlapping.
\<close>

definition liveCIDRs :: "OvsController \<Rightarrow> string list" where
  "liveCIDRs oc = map (\<lambda>kv. SubnetCIDR (snd kv)) (subnets (registry oc))"

fun pairwiseDisjoint :: "IPNet list \<Rightarrow> bool" where
  "pairwiseDisjoint [] = True"
| "pairwiseDisjoint (a # as) = (list_all (\<lambda>b. \<not> overlaps a b) as \<and> pairwiseDisjoint as)"

definition liveDisjoint :: "netlib \<Rightarrow> OvsController \<Rightarrow> bool" where
  "liveDisjoint L oc =
     (case parseAll L (liveCIDRs oc) of
        None \<Rightarrow> False
      | Some ns \<Rightarrow> pairwiseDisjoint ns)"

text \<open>
  A master state in which registry and allocator agree: no registry call is going to
  fail, node names and CIDRs of the records are distinct, the CIDRs are the printed
  networks of the exclusion set, the networks of the exclusion set are pairwise
  non-overlapping, and the networks of the pool and of the exclusion set are parsed back
  from what \<open>IPNet.String\<close> prints.
\<close>

definition consistent :: "netlib \<Rightarrow> OvsController \<Rightarrow> bool" where
  "consistent L oc =
     (faults (registry oc) = [] \<and>
      distinct (map fst (subnets (registry oc))) \<and>
      distinct (liveCIDRs oc) \<and>
      set (liveCIDRs oc) = IPNetString L ` set (inUse (subnetAllocator oc)) \<and>
      (\<forall>n \<in> set (inUse (subnetAllocator oc)) \<union> set (pool (subnetAllocator oc)).
         ParseCIDR L (IPNetString L n) = Some n) \<and>
      (\<forall>x \<in> set (inUse (subnetAllocator oc)). \<forall>y \<in> set (inUse (subnetAllocator oc)).
         x \<noteq> y \<longrightarrow> \<not> overlaps x y))"





subsection \<open>A small cluster for concrete runs\<close>

text \<open>
  The cluster network 10.1.0.0/23 with host subnets of 8 bits has the two sub-ranges
  10.1.0.0/24 and 10.1.1.0/24. \<open>demoLib\<close> prints and parses the networks of
  \<open>demoTable\<close>.
\<close>

definition net_10_1_0 :: IPNet where
  "net_10_1_0 = \<lparr>network = 0x0A010000, prefixLen = 24\<rparr>"

definition net_10_1_1 :: IPNet where
  "net_10_1_1 = \<lparr>network = 0x0A010100, prefixLen = 24\<rparr>"

definition net_10_1_5 :: IPNet where
  "net_10_1_5 = \<lparr>network = 0x0A010500, prefixLen = 24\<rparr>"

definition demoTable :: "(string \<times> IPNet) list" where
  "demoTable =
     [(''10.1.0.0/24'', net_10_1_0),
      (''10.1.1.0/24'', net_10_1_1),
      (''10.1.5.0/24'', net_10_1_5),
      (''10.1.0.0/23'', \<lparr>network = 0x0A010000, prefixLen = 23\<rparr>)]"

definition demoLib :: netlib where
  "demoLib =
     \<lparr>ParseCIDR = map_of demoTable,
      IPNetString = (\<lambda>n. case find (\<lambda>kv. snd kv = n) demoTable of
                            None \<Rightarrow> ''<nil>''
                          | Some kv \<Rightarrow> fst kv)\<rparr>"

definition demoRegistry :: Registry where
  "demoRegistry =
     \<lparr>subnets = [], nodes = [], clusterNetworkCIDR = ''10.1.0.0/23'', hostSubnetLength = 8,
      servicesNetworkCIDR = ''172.30.0.0/16'', faults = []\<rparr>"

definition demoController :: OvsController where
  "demoController =
     \<lparr>registry = demoRegistry,
      subnetAllocator = \<lparr>pool = [net_10_1_0, net_10_1_1], inUse = []\<rparr>,
      flowController = \<lparr>setupFails = False\<rparr>,
      hostName = ''node1'', localIP = ''192.168.0.1'', localSubnet = None, nodeMtu = 1450,
      calls = []\<rparr>"

definition withSubnets :: "OvsController \<Rightarrow> (string \<times> Subnet) list \<Rightarrow> OvsController" where
  "withSubnets oc subs = oc\<lparr>registry := (registry oc)\<lparr>subnets := subs\<rparr>\<rparr>"

definition withFaults :: "OvsController \<Rightarrow> bool list \<Rightarrow> OvsController" where
  "withFaults oc fs = oc\<lparr>registry := (registry oc)\<lparr>faults := fs\<rparr>\<rparr>"

definition withInUse :: "OvsController \<Rightarrow> IPNet list \<Rightarrow> OvsController" where
  "withInUse oc ns = oc\<lparr>subnetAllocator := (subnetAllocator oc)\<lparr>inUse := ns\<rparr>\<rparr>"

definition addedEvent :: "string \<Rightarrow> string \<Rightarrow> NodeEvent" where
  "addedEvent nodeName nodeIP =
     \<lparr>NodeEventType = Added, EventNode = \<lparr>Name = nodeName, IP = nodeIP\<rparr>\<rparr>"

definition deletedEvent :: "string \<Rightarrow> string \<Rightarrow> NodeEvent" where
  "deletedEvent nodeName nodeIP =
     \<lparr>NodeEventType = Deleted, EventNode = \<lparr>Name = nodeName, IP = nodeIP\<rparr>\<rparr>"

definition n1_old :: OvsController where
  "n1_old =
     withInUse
       (withSubnets demoController
          [(''n1'', \<lparr>NodeIP = ''1.1.1.1'', SubnetCIDR = ''10.1.5.0/24''\<rparr>)])
       [net_10_1_5]"

definition n1_bogus :: OvsController where
  "n1_bogus =
     withInUse
       (withSubnets demoController [(''n1'', \<lparr>NodeIP = ''1.1.1.1'', SubnetCIDR = ''bogus''\<rparr>)])
       [net_10_1_5]"

definition node1_late :: OvsController where
  "node1_late =
     withFaults
       (withSubnets demoController
          [(''node1'', \<lparr>NodeIP = ''192.168.0.1'', SubnetCIDR = ''10.1.1.0/24''\<rparr>)])
       [True, True]"

definition node1_ready :: OvsController where
  "node1_ready =
     withSubnets demoController
       [(''node1'', \<lparr>NodeIP = ''192.168.0.1'', SubnetCIDR = ''10.1.0.0/24''\<rparr>),
        (''node2'', \<lparr>NodeIP = ''192.168.0.2'', SubnetCIDR = ''10.1.1.0/24''\<rparr>)]"

definition subnetAdded :: "string \<Rightarrow> string \<Rightarrow> SubnetEvent" where
  "subnetAdded nodeIP subnetCIDR =
     \<lparr>SubnetEventType = Added, EventSubnet = \<lparr>NodeIP = nodeIP, SubnetCIDR = subnetCIDR\<rparr>\<rparr>"

definition subnetDeleted :: "string \<Rightarrow> string \<Rightarrow> SubnetEvent" where
  "subnetDeleted nodeIP subnetCIDR =
     \<lparr>SubnetEventType = Deleted, EventSubnet = \<lparr>NodeIP = nodeIP, SubnetCIDR = subnetCIDR\<rparr>\<rparr>"

definition node_a :: Node where
  "node_a = \<lparr>Name = ''a'', IP = ''1.1.1.2''\<rparr>"

definition node_b :: Node where
  "node_b = \<lparr>Name = ''b'', IP = ''1.1.1.3''\<rparr>"

definition node_c :: Node where
  "node_c = \<lparr>Name = ''c'', IP = ''1.1.1.4''\<rparr>"

definition node_n1 :: Node where
  "node_n1 = \<lparr>Name = ''n1'', IP = ''1.1.1.1''\<rparr>"



section \<open>Basic facts about the collaborators\<close>

lemma logCall_fields [simp]:
  "registry (logCall oc c) = registry oc"
  "subnetAllocator (logCall oc c) = subnetAllocator oc"
  "flowController (logCall oc c) = flowController oc"
  "hostName (logCall oc c) = hostName oc"
  "localIP (logCall oc c) = localIP oc"
  "localSubnet (logCall oc c) = localSubnet oc"
  "nodeMtu (logCall oc c) = nodeMtu oc"
  "calls (logCall oc c) = calls oc @ [c]"
  by (simp_all add: logCall_def)

lemma registryCall_fields [simp]:
  "fst (registryCall oc c) = nextCallFails oc"
  "subnets (registry (snd (registryCall oc c))) = subnets (registry oc)"
  "nodes (registry (snd (registryCall oc c))) = nodes (registry oc)"
  "clusterNetworkCIDR (registry (snd (registryCall oc c))) = clusterNetworkCIDR (registry oc)"
  "hostSubnetLength (registry (snd (registryCall oc c))) = hostSubnetLength (registry oc)"
  "servicesNetworkCIDR (registry (snd (registryCall oc c))) = servicesNetworkCIDR (registry oc)"
  "faults (registry (snd (registryCall oc c))) = drop 1 (faults (registry oc))"
  "subnetAllocator (snd (registryCall oc c)) = subnetAllocator oc"
  "flowController (snd (registryCall oc c)) = flowController oc"
  "hostName (snd (registryCall oc c)) = hostName oc"
  "localIP (snd (registryCall oc c)) = localIP oc"
  "localSubnet (snd (registryCall oc c)) = localSubnet oc"
  "nodeMtu (snd (registryCall oc c)) = nodeMtu oc"
  "calls (snd (registryCall oc c)) = calls oc @ [c]"
  by (simp_all add: registryCall_def)

lemma GetSubnet_fst:
  "fst (registry_GetSubnet oc n) =
     (if nextCallFails oc then Inl RegistryUnavailable
      else case map_of (subnets (registry oc)) n of
             None \<Rightarrow> Inl SubnetNotFound
           | Some sub \<Rightarrow> Inr sub)"
  by (simp add: registry_GetSubnet_def split_def split: option.splits)

lemma GetSubnet_snd:
  "snd (registry_GetSubnet oc n) = snd (registryCall oc (CallGetSubnet n))"
  by (simp add: registry_GetSubnet_def split_def split: option.splits)

lemma GetSubnet_fields [simp]:
  "subnets (registry (snd (registry_GetSubnet oc n))) = subnets (registry oc)"
  "faults (registry (snd (registry_GetSubnet oc n))) = drop 1 (faults (registry oc))"
  "subnetAllocator (snd (registry_GetSubnet oc n)) = subnetAllocator oc"
  "flowController (snd (registry_GetSubnet oc n)) = flowController oc"
  "hostName (snd (registry_GetSubnet oc n)) = hostName oc"
  "localIP (snd (registry_GetSubnet oc n)) = localIP oc"
  "localSubnet (snd (registry_GetSubnet oc n)) = localSubnet oc"
  "nodeMtu (snd (registry_GetSubnet oc n)) = nodeMtu oc"
  "calls (snd (registry_GetSubnet oc n)) = calls oc @ [CallGetSubnet n]"
  by (simp_all add: GetSubnet_snd)

lemma GetSubnet_found:
  "fst (registry_GetSubnet oc n) = Inr sub \<longleftrightarrow>
     \<not> nextCallFails oc \<and> map_of (subnets (registry oc)) n = Some sub"
  by (simp add: GetSubnet_fst split: option.splits)

lemma CreateSubnet_fst:
  "fst (registry_CreateSubnet oc n s) =
     (if nextCallFails oc then Some RegistryUnavailable
      else case map_of (subnets (registry oc)) n of
             None \<Rightarrow> None
           | Some old \<Rightarrow> Some SubnetExists)"
  by (simp add: registry_CreateSubnet_def split_def split: option.splits)

lemma CreateSubnet_fields [simp]:
  "subnets (registry (snd (registry_CreateSubnet oc n s))) =
     (if fst (registry_CreateSubnet oc n s) = None then subnets (registry oc) @ [(n, s)]
      else subnets (registry oc))"
  "faults (registry (snd (registry_CreateSubnet oc n s))) = drop 1 (faults (registry oc))"
  "subnetAllocator (snd (registry_CreateSubnet oc n s)) = subnetAllocator oc"
  "flowController (snd (registry_CreateSubnet oc n s)) = flowController oc"
  "hostName (snd (registry_CreateSubnet oc n s)) = hostName oc"
  "localIP (snd (registry_CreateSubnet oc n s)) = localIP oc"
  "localSubnet (snd (registry_CreateSubnet oc n s)) = localSubnet oc"
  "calls (snd (registry_CreateSubnet oc n s)) = calls oc @ [CallCreateSubnet n s]"
  by (simp_all add: registry_CreateSubnet_def split_def split: option.splits)

lemma DeleteSubnet_fst:
  "fst (registry_DeleteSubnet oc n) =
     (if nextCallFails oc then Some RegistryUnavailable
      else case map_of (subnets (registry oc)) n of
             None \<Rightarrow> Some SubnetNotFound
           | Some old \<Rightarrow> None)"
  by (simp add: registry_DeleteSubnet_def split_def split: option.splits)

lemma DeleteSubnet_fields [simp]:
  "subnets (registry (snd (registry_DeleteSubnet oc n))) =
     (if fst (registry_DeleteSubnet oc n) = None
      then filter (\<lambda>kv. fst kv \<noteq> n) (subnets (registry oc))
      else subnets (registry oc))"
  "faults (registry (snd (registry_DeleteSubnet oc n))) = drop 1 (faults (registry oc))"
  "subnetAllocator (snd (registry_DeleteSubnet oc n)) = subnetAllocator oc"
  "flowController (snd (registry_DeleteSubnet oc n)) = flowController oc"
  "hostName (snd (registry_DeleteSubnet oc n)) = hostName oc"
  "localIP (snd (registry_DeleteSubnet oc n)) = localIP oc"
  "localSubnet (snd (registry_DeleteSubnet oc n)) = localSubnet oc"
  "calls (snd (registry_DeleteSubnet oc n)) = calls oc @ [CallDeleteSubnet n]"
  by (simp_all add: registry_DeleteSubnet_def split_def split: option.splits)

lemma GetNetwork_fst:
  "fst (allocator_GetNetwork oc) =
     (case freeNetwork (subnetAllocator oc) of
        None \<Rightarrow> Inl NoSubnetsAvailable
      | Some sn \<Rightarrow> Inr sn)"
  by (simp add: allocator_GetNetwork_def Let_def split: option.splits)

lemma GetNetwork_fields [simp]:
  "registry (snd (allocator_GetNetwork oc)) = registry oc"
  "pool (subnetAllocator (snd (allocator_GetNetwork oc))) = pool (subnetAllocator oc)"
  "inUse (subnetAllocator (snd (allocator_GetNetwork oc))) =
     (case freeNetwork (subnetAllocator oc) of
        None \<Rightarrow> inUse (subnetAllocator oc)
      | Some sn \<Rightarrow> inUse (subnetAllocator oc) @ [sn])"
  "flowController (snd (allocator_GetNetwork oc)) = flowController oc"
  "hostName (snd (allocator_GetNetwork oc)) = hostName oc"
  "localIP (snd (allocator_GetNetwork oc)) = localIP oc"
  "localSubnet (snd (allocator_GetNetwork oc)) = localSubnet oc"
  "calls (snd (allocator_GetNetwork oc)) = calls oc @ [CallGetNetwork]"
  by (simp_all add: allocator_GetNetwork_def Let_def split: option.splits)

lemma ReleaseNetwork_fields [simp]:
  "registry (allocator_ReleaseNetwork oc ipnet) = registry oc"
  "pool (subnetAllocator (allocator_ReleaseNetwork oc ipnet)) = pool (subnetAllocator oc)"
  "inUse (subnetAllocator (allocator_ReleaseNetwork oc ipnet)) =
     removeAll ipnet (inUse (subnetAllocator oc))"
  "flowController (allocator_ReleaseNetwork oc ipnet) = flowController oc"
  "hostName (allocator_ReleaseNetwork oc ipnet) = hostName oc"
  "localIP (allocator_ReleaseNetwork oc ipnet) = localIP oc"
  "localSubnet (allocator_ReleaseNetwork oc ipnet) = localSubnet oc"
  "calls (allocator_ReleaseNetwork oc ipnet) = calls oc @ [CallReleaseNetwork ipnet]"
  by (simp_all add: allocator_ReleaseNetwork_def Let_def)

subsection \<open>addNode, field by field\<close>

lemma addNode_fst:
  "fst (addNode L oc n ip) =
     (case freeNetwork (subnetAllocator oc) of
        None \<Rightarrow> Some NoSubnetsAvailable
      | Some sn \<Rightarrow>
          if ip = '''' \<or> ip = ''127.0.0.1'' then Some InvalidNodeIP
          else fst (registry_CreateSubnet (snd (allocator_GetNetwork oc)) n
                      \<lparr>NodeIP = ip, SubnetCIDR = IPNetString L sn\<rparr>))"
  by (simp add: addNode_def split_def GetNetwork_fst split: option.splits sum.splits)

lemma addNode_calls:
  "calls (snd (addNode L oc n ip)) =
     (case freeNetwork (subnetAllocator oc) of
        None \<Rightarrow> calls oc @ [CallGetNetwork]
      | Some sn \<Rightarrow>
          if ip = '''' \<or> ip = ''127.0.0.1'' then calls oc @ [CallGetNetwork]
          else calls oc @ [CallGetNetwork,
                 CallCreateSubnet n \<lparr>NodeIP = ip, SubnetCIDR = IPNetString L sn\<rparr>])"
  by (simp add: addNode_def split_def GetNetwork_fst split: option.splits sum.splits)

lemma addNode_inUse:
  "inUse (subnetAllocator (snd (addNode L oc n ip))) =
     (case freeNetwork (subnetAllocator oc) of
        None \<Rightarrow> inUse (subnetAllocator oc)
      | Some sn \<Rightarrow> inUse (subnetAllocator oc) @ [sn])"
  by (simp add: addNode_def split_def GetNetwork_fst split: option.splits sum.splits)

lemma addNode_subnets:
  "subnets (registry (snd (addNode L oc n ip))) =
     (case freeNetwork (subnetAllocator oc) of
        None \<Rightarrow> subnets (registry oc)
      | Some sn \<Rightarrow>
          if fst (addNode L oc n ip) = None
          then subnets (registry oc) @ [(n, \<lparr>NodeIP = ip, SubnetCIDR = IPNetString L sn\<rparr>)]
          else subnets (registry oc))"
  by (simp add: addNode_def split_def GetNetwork_fst split: option.splits sum.splits)

lemma addNode_faults:
  "faults (registry (snd (addNode L oc n ip))) =
     (if freeNetwork (subnetAllocator oc) = None \<or> ip = '''' \<or> ip = ''127.0.0.1''
      then faults (registry oc) else drop 1 (faults (registry oc)))"
  by (simp add: addNode_def split_def GetNetwork_fst split: option.splits sum.splits)

lemma addNode_frame [simp]:
  "pool (subnetAllocator (snd (addNode L oc n ip))) = pool (subnetAllocator oc)"
  "flowController (snd (addNode L oc n ip)) = flowController oc"
  "hostName (snd (addNode L oc n ip)) = hostName oc"
  "localIP (snd (addNode L oc n ip)) = localIP oc"
  "localSubnet (snd (addNode L oc n ip)) = localSubnet oc"
  by (simp_all add: addNode_def split_def split: option.splits sum.splits)

subsection \<open>deleteNode, the event handlers and the sweep\<close>

lemma deleteNode_fst:
  "fst (deleteNode L oc n) =
     (case fst (registry_GetSubnet oc n) of
        Inl err \<Rightarrow> Some err
      | Inr sub \<Rightarrow>
          (case ParseCIDR L (SubnetCIDR sub) of
             None \<Rightarrow> Some InvalidCIDR
           | Some ipnet \<Rightarrow>
               fst (registry_DeleteSubnet
                      (allocator_ReleaseNetwork (snd (registry_GetSubnet oc n)) ipnet) n)))"
  by (simp add: deleteNode_def split_def split: option.splits sum.splits)

lemma deleteNode_snd:
  "snd (deleteNode L oc n) =
     (case fst (registry_GetSubnet oc n) of
        Inl err \<Rightarrow> snd (registry_GetSubnet oc n)
      | Inr sub \<Rightarrow>
          (case ParseCIDR L (SubnetCIDR sub) of
             None \<Rightarrow> snd (registry_GetSubnet oc n)
           | Some ipnet \<Rightarrow>
               snd (registry_DeleteSubnet
                      (allocator_ReleaseNetwork (snd (registry_GetSubnet oc n)) ipnet) n)))"
  by (simp add: deleteNode_def split_def split: option.splits sum.splits)

lemma watchNodes_event_Added:
  "watchNodes_event L oc (addedEvent n ip) =
     (case fst (registry_GetSubnet oc n) of
        Inl err \<Rightarrow> snd (addNode L (snd (registry_GetSubnet oc n)) n ip)
      | Inr sub \<Rightarrow>
          if NodeIP sub \<noteq> ip then
            (case fst (registry_DeleteSubnet (snd (registry_GetSubnet oc n)) n) of
               Some err \<Rightarrow> snd (registry_DeleteSubnet (snd (registry_GetSubnet oc n)) n)
             | None \<Rightarrow>
                 snd (registry_CreateSubnet
                        (snd (registry_DeleteSubnet (snd (registry_GetSubnet oc n)) n)) n
                        (sub\<lparr>NodeIP := ip\<rparr>)))
          else snd (registry_GetSubnet oc n))"
  by (simp add: watchNodes_event_def addedEvent_def split_def
           split: sum.splits option.splits)

lemma watchNodes_event_Deleted:
  "watchNodes_event L oc (deletedEvent n ip) = snd (deleteNode L oc n)"
  by (simp add: watchNodes_event_def deletedEvent_def)

lemma watchNodes_signal:
  "watchNodes L oc (map Event evs @ Signal # rest) =
     Returned (logCall (foldl (watchNodes_event L) oc evs) CallStop)"
  by (induction evs arbitrary: oc) simp_all

lemma watchNodes_events:
  "watchNodes L oc (map Event evs) = Selecting (foldl (watchNodes_event L) oc evs)"
  by (induction evs arbitrary: oc) simp_all

lemma watchSubnets_signal:
  "watchSubnets oc (map Event evs @ Signal # rest) =
     Returned (logCall (foldl watchSubnets_event oc evs) CallStop)"
  by (induction evs arbitrary: oc) simp_all

lemma watchSubnets_events:
  "watchSubnets oc (map Event evs) = Selecting (foldl watchSubnets_event oc evs)"
  by (induction evs arbitrary: oc) simp_all

lemma serveExistingNodes_Cons:
  "serveExistingNodes L oc (node # rest) =
     (case fst (registry_GetSubnet oc (Name node)) of
        Inr sub \<Rightarrow> serveExistingNodes L (snd (registry_GetSubnet oc (Name node))) rest
      | Inl err \<Rightarrow>
          (case fst (addNode L (snd (registry_GetSubnet oc (Name node))) (Name node) (IP node)) of
             Some err' \<Rightarrow>
               (Some err',
                snd (addNode L (snd (registry_GetSubnet oc (Name node))) (Name node) (IP node)))
           | None \<Rightarrow>
               serveExistingNodes L
                 (snd (addNode L (snd (registry_GetSubnet oc (Name node))) (Name node) (IP node)))
                 rest))"
  by (simp add: split_def split: sum.splits option.splits)

declare serveExistingNodes.simps(2) [simp del]

lemma addNode_calls_ex:
  "\<exists>cs. calls (snd (addNode L oc n ip)) = calls oc @ CallGetNetwork # cs"
  by (simp add: addNode_calls split: option.splits)

lemma serveExistingNodes_calls:
  "\<exists>cs. calls (snd (serveExistingNodes L oc ns)) = calls oc @ cs"
proof (induction ns arbitrary: oc)
  case Nil
  show ?case by simp
next
  case (Cons node rest)
  let ?oc1 = "snd (registry_GetSubnet oc (Name node))"
  let ?oc2 = "snd (addNode L ?oc1 (Name node) (IP node))"
  from Cons.IH [of ?oc1] obtain cs1 where
    c1: "calls (snd (serveExistingNodes L ?oc1 rest)) = calls oc @ CallGetSubnet (Name node) # cs1"
    by auto
  obtain cs where c: "calls ?oc2 = calls oc @ CallGetSubnet (Name node) # CallGetNetwork # cs"
    using addNode_calls_ex [of L ?oc1 "Name node" "IP node"] by auto
  from Cons.IH [of ?oc2] obtain cs2 where
    c2: "calls (snd (serveExistingNodes L ?oc2 rest)) =
           calls oc @ CallGetSubnet (Name node) # CallGetNetwork # cs @ cs2"
    using c by auto
  show ?case
    using c1 c2 c
    by (simp add: serveExistingNodes_Cons split: sum.splits option.splits)
qed

lemma serveExistingNodes_lookup_error_calls:
  assumes "fst (registry_GetSubnet oc (Name node)) = Inl err"
  shows "\<exists>cs. calls (snd (serveExistingNodes L oc (node # rest))) =
           calls oc @ CallGetSubnet (Name node) # CallGetNetwork # cs"
proof -
  let ?oc1 = "snd (registry_GetSubnet oc (Name node))"
  let ?oc2 = "snd (addNode L ?oc1 (Name node) (IP node))"
  obtain cs where c: "calls ?oc2 = calls oc @ CallGetSubnet (Name node) # CallGetNetwork # cs"
    using addNode_calls_ex [of L ?oc1 "Name node" "IP node"] by auto
  obtain cs2 where
    c2: "calls (snd (serveExistingNodes L ?oc2 rest)) = calls ?oc2 @ cs2"
    using serveExistingNodes_calls [of L ?oc2 rest] by blast
  show ?thesis
    using assms c c2
    by (simp add: serveExistingNodes_Cons split: option.splits)
qed

subsection \<open>One record per node name\<close>

lemma CreateSubnet_distinct:
  "distinct (map fst (subnets (registry oc))) \<Longrightarrow>
   distinct (map fst (subnets (registry (snd (registry_CreateSubnet oc n s)))))"
  by (auto simp: CreateSubnet_fst map_of_eq_None_iff split: if_splits option.splits)

lemma DeleteSubnet_distinct:
  "distinct (map fst (subnets (registry oc))) \<Longrightarrow>
   distinct (map fst (subnets (registry (snd (registry_DeleteSubnet oc n)))))"
  by (simp add: distinct_map_filter)

lemma addNode_distinct:
  "distinct (map fst (subnets (registry oc))) \<Longrightarrow>
   distinct (map fst (subnets (registry (snd (addNode L oc n ip)))))"
  by (auto simp: addNode_subnets addNode_fst CreateSubnet_fst map_of_eq_None_iff
           split: if_splits option.splits)

lemma deleteNode_distinct:
  "distinct (map fst (subnets (registry oc))) \<Longrightarrow>
   distinct (map fst (subnets (registry (snd (deleteNode L oc n)))))"
  by (simp add: deleteNode_def split_def distinct_map_filter split: sum.splits option.splits)

lemma watchNodes_event_distinct:
  assumes "distinct (map fst (subnets (registry oc)))"
  shows "distinct (map fst (subnets (registry (watchNodes_event L oc ev))))"
proof (cases "NodeEventType ev")
  case Added
  then have e: "ev = addedEvent (Name (EventNode ev)) (IP (EventNode ev))"
    by (simp add: addedEvent_def)
  let ?n = "Name (EventNode ev)"
  let ?oc1 = "snd (registry_GetSubnet oc ?n)"
  have d1: "distinct (map fst (subnets (registry ?oc1)))" using assms by simp
  have d2: "distinct (map fst (subnets (registry (snd (registry_DeleteSubnet ?oc1 ?n)))))"
    using d1 by (rule DeleteSubnet_distinct)
  show ?thesis
    apply (subst e)
    apply (simp only: watchNodes_event_Added)
    using d1 d2 addNode_distinct [OF d1] CreateSubnet_distinct [OF d2]
    by (simp split: sum.splits option.splits)
next
  case Deleted
  then have e: "ev = deletedEvent (Name (EventNode ev)) (IP (EventNode ev))"
    by (simp add: deletedEvent_def)
  show ?thesis
    apply (subst e)
    using deleteNode_distinct [OF assms] by (simp add: watchNodes_event_Deleted)
qed

lemma foldl_watchNodes_distinct:
  "distinct (map fst (subnets (registry oc))) \<Longrightarrow>
   distinct (map fst (subnets (registry (foldl (watchNodes_event L) oc evs))))"
  by (induction evs arbitrary: oc) (simp_all add: watchNodes_event_distinct)

lemma serveExistingNodes_distinct:
  "distinct (map fst (subnets (registry oc))) \<Longrightarrow>
   distinct (map fst (subnets (registry (snd (serveExistingNodes L oc ns)))))"
proof (induction ns arbitrary: oc)
  case Nil
  then show ?case by simp
next
  case (Cons node rest)
  let ?oc1 = "snd (registry_GetSubnet oc (Name node))"
  let ?oc2 = "snd (addNode L ?oc1 (Name node) (IP node))"
  have d1: "distinct (map fst (subnets (registry ?oc1)))" using Cons.prems by simp
  have d2: "distinct (map fst (subnets (registry ?oc2)))" using d1 by (rule addNode_distinct)
  show ?case
    using Cons.IH [OF d1] Cons.IH [OF d2] d2
    by (simp add: serveExistingNodes_Cons split: sum.splits option.splits)
qed

subsection \<open>Evaluation on the small cluster\<close>

lemmas demo_defs =
  demoController_def demoRegistry_def withSubnets_def withFaults_def withInUse_def
  nextCallFails_def freeNetwork_def demoLib_def demoTable_def
  net_10_1_0_def net_10_1_1_def net_10_1_5_def overlaps_def

lemma Subnet_update_NodeIP:
  "sub\<lparr>NodeIP := ip\<rparr> = \<lparr>NodeIP = ip, SubnetCIDR = SubnetCIDR sub\<rparr>"
  by (cases sub) simp

lemma map_of_filter_append_same:
  "map_of (filter (\<lambda>kv. fst kv \<noteq> n) xs @ [(n, v)]) n = Some v"
  by (induction xs) auto

lemma map_of_filter_append_other:
  "m \<noteq> n \<Longrightarrow> map_of (filter (\<lambda>kv. fst kv \<noteq> n) xs @ [(n, v)]) m = map_of xs m"
  by (induction xs) auto

section \<open>The claims\<close>

subsection \<open>C2: addNode with an invalid node IP\<close>

text \<open>
  C2 says that \<open>addNode\<close> with an empty IP or with 127.0.0.1 returns an error and leaves the
  allocator and the registry unchanged. \<open>addNode\<close> calls \<open>GetNetwork\<close> before it checks
  the IP: on the small cluster, whose allocator has nothing in use, both calls return the
  error and leave the registry as it was, but 10.1.0.0/24 has been taken from the pool and
  stays in the exclusion set.
\<close>

theorem addNode_invalid_ip_takes_network:
  "fst (addNode demoLib demoController ''n2'' ''127.0.0.1'') = Some InvalidNodeIP \<and>
   fst (addNode demoLib demoController ''n2'' '''') = Some InvalidNodeIP \<and>
   subnets (registry (snd (addNode demoLib demoController ''n2'' ''127.0.0.1''))) =
     subnets (registry demoController) \<and>
   subnets (registry (snd (addNode demoLib demoController ''n2'' ''''))) =
     subnets (registry demoController) \<and>
   inUse (subnetAllocator demoController) = [] \<and>
   inUse (subnetAllocator (snd (addNode demoLib demoController ''n2'' ''127.0.0.1''))) =
     [net_10_1_0] \<and>
   inUse (subnetAllocator (snd (addNode demoLib demoController ''n2'' ''''))) = [net_10_1_0] \<and>
   calls (snd (addNode demoLib demoController ''n2'' ''127.0.0.1'')) = [CallGetNetwork]"
proof -
  have f: "freeNetwork (subnetAllocator demoController) = Some net_10_1_0"
    by (simp add: demo_defs)
  show ?thesis
    by (simp add: addNode_fst addNode_subnets addNode_inUse addNode_calls f)
       (simp add: demoController_def)
qed

subsection \<open>C4: an Added event with a changed IP\<close>

text \<open>
  C4: when the master handles an Added event for a node whose existing Subnet (the one
  the registry lookup returns) records another IP, it deletes the record and recreates
  it with the same CIDR and the new IP, the allocator being left alone. If the delete
  fails, nothing else is called: the stale record stays and the allocator is unchanged.
  If the delete succeeds, \<open>CreateSubnet\<close> is called with the old CIDR and the new IP, and
  when it succeeds the node's record is that one and every other record is as before.
  In each case the loop goes on with the next thing its select receives.
\<close>

theorem ip_change_keeps_cidr:
  assumes "fst (registry_GetSubnet oc n) = Inr sub" and "NodeIP sub \<noteq> ip"
  shows
    "(fst (registry_DeleteSubnet (snd (registry_GetSubnet oc n)) n) = Some err \<longrightarrow>
        subnets (registry (watchNodes_event L oc (addedEvent n ip))) = subnets (registry oc) \<and>
        subnetAllocator (watchNodes_event L oc (addedEvent n ip)) = subnetAllocator oc \<and>
        calls (watchNodes_event L oc (addedEvent n ip)) =
          calls oc @ [CallGetSubnet n, CallDeleteSubnet n]) \<and>
     (fst (registry_DeleteSubnet (snd (registry_GetSubnet oc n)) n) = None \<longrightarrow>
        calls (watchNodes_event L oc (addedEvent n ip)) =
          calls oc @ [CallGetSubnet n, CallDeleteSubnet n,
                      CallCreateSubnet n \<lparr>NodeIP = ip, SubnetCIDR = SubnetCIDR sub\<rparr>] \<and>
        subnetAllocator (watchNodes_event L oc (addedEvent n ip)) = subnetAllocator oc \<and>
        (fst (registry_CreateSubnet
                (snd (registry_DeleteSubnet (snd (registry_GetSubnet oc n)) n)) n
                \<lparr>NodeIP = ip, SubnetCIDR = SubnetCIDR sub\<rparr>) = None \<longrightarrow>
           map_of (subnets (registry (watchNodes_event L oc (addedEvent n ip)))) n =
             Some \<lparr>NodeIP = ip, SubnetCIDR = SubnetCIDR sub\<rparr> \<and>
           (\<forall>m. m \<noteq> n \<longrightarrow>
              map_of (subnets (registry (watchNodes_event L oc (addedEvent n ip)))) m =
              map_of (subnets (registry oc)) m))) \<and>
     watchNodes L oc (Event (addedEvent n ip) # rest) =
       watchNodes L (watchNodes_event L oc (addedEvent n ip)) rest"
  using assms
  by (simp add: watchNodes_event_Added Subnet_update_NodeIP map_of_filter_append_same
        map_of_filter_append_other del: map_of_append)

theorem ip_change_keeps_cidr_witness:
  "fst (registry_GetSubnet n1_old ''n1'') =
     Inr \<lparr>NodeIP = ''1.1.1.1'', SubnetCIDR = ''10.1.5.0/24''\<rparr> \<and>
   ''1.1.1.1'' \<noteq> ''2.2.2.2'' \<and>
   fst (registry_DeleteSubnet (snd (registry_GetSubnet n1_old ''n1'')) ''n1'') = None \<and>
   map_of (subnets (registry (watchNodes_event demoLib n1_old (addedEvent ''n1'' ''2.2.2.2''))))
     ''n1'' = Some \<lparr>NodeIP = ''2.2.2.2'', SubnetCIDR = ''10.1.5.0/24''\<rparr> \<and>
   subnetAllocator (watchNodes_event demoLib n1_old (addedEvent ''n1'' ''2.2.2.2'')) =
     subnetAllocator n1_old \<and>
   fst (registry_DeleteSubnet (snd (registry_GetSubnet (withFaults n1_old [False, True]) ''n1''))
          ''n1'') = Some RegistryUnavailable \<and>
   subnets (registry (watchNodes_event demoLib (withFaults n1_old [False, True])
                        (addedEvent ''n1'' ''2.2.2.2''))) =
     [(''n1'', \<lparr>NodeIP = ''1.1.1.1'', SubnetCIDR = ''10.1.5.0/24''\<rparr>)] \<and>
   calls (watchNodes_event demoLib (withFaults n1_old [False, True])
            (addedEvent ''n1'' ''2.2.2.2'')) =
     [CallGetSubnet ''n1'', CallDeleteSubnet ''n1'']"
proof -
  let ?sub = "\<lparr>NodeIP = ''1.1.1.1'', SubnetCIDR = ''10.1.5.0/24''\<rparr>"
  have h1: "fst (registry_GetSubnet n1_old ''n1'') = Inr ?sub"
    by (simp add: GetSubnet_fst n1_old_def demo_defs)
  have h2: "fst (registry_GetSubnet (withFaults n1_old [False, True]) ''n1'') = Inr ?sub"
    by (simp add: GetSubnet_fst n1_old_def demo_defs)
  have h3: "NodeIP ?sub \<noteq> ''2.2.2.2''" by simp
  have d1: "fst (registry_DeleteSubnet (snd (registry_GetSubnet n1_old ''n1'')) ''n1'') = None"
    by (simp add: DeleteSubnet_fst n1_old_def demo_defs)
  have c1: "fst (registry_CreateSubnet
                (snd (registry_DeleteSubnet (snd (registry_GetSubnet n1_old ''n1'')) ''n1''))
                ''n1'' \<lparr>NodeIP = ''2.2.2.2'', SubnetCIDR = SubnetCIDR ?sub\<rparr>) = None"
    by (simp add: CreateSubnet_fst DeleteSubnet_fst n1_old_def demo_defs)
  have d2: "fst (registry_DeleteSubnet
                   (snd (registry_GetSubnet (withFaults n1_old [False, True]) ''n1'')) ''n1'') =
              Some RegistryUnavailable"
    by (simp add: DeleteSubnet_fst n1_old_def demo_defs)
  have s0: "subnets (registry (withFaults n1_old [False, True])) = [(''n1'', ?sub)]"
           "calls (withFaults n1_old [False, True]) = []"
    by (simp_all add: n1_old_def demo_defs)
  show ?thesis
    using ip_change_keeps_cidr [OF h1 h3, where L = demoLib and rest = "[]"]
          ip_change_keeps_cidr [OF h2 h3, where err = RegistryUnavailable and L = demoLib
            and rest = "[]"]
          h1 d1 c1 d2 s0
    by simp
qed

subsection \<open>C5: the steps of deleteNode\<close>

text \<open>
  C5: \<open>deleteNode\<close> looks the node's Subnet up, parses its CIDR, releases the parsed
  network to the allocator and then deletes the registry record, in this order. When the
  lookup fails, or when the CIDR does not parse, it returns the error, the lookup is the
  only call it has made, and the allocator and the registry's records are unchanged.
  Otherwise the calls are the lookup, \<open>ReleaseNetwork\<close> of the parsed network and
  \<open>DeleteSubnet\<close>, and the result is that of \<open>DeleteSubnet\<close>.
\<close>

theorem deleteNode_steps:
  "(fst (registry_GetSubnet oc n) = Inl err \<longrightarrow>
      fst (deleteNode L oc n) = Some err \<and>
      calls (snd (deleteNode L oc n)) = calls oc @ [CallGetSubnet n] \<and>
      subnetAllocator (snd (deleteNode L oc n)) = subnetAllocator oc \<and>
      subnets (registry (snd (deleteNode L oc n))) = subnets (registry oc)) \<and>
   (fst (registry_GetSubnet oc n) = Inr sub \<and> ParseCIDR L (SubnetCIDR sub) = None \<longrightarrow>
      fst (deleteNode L oc n) = Some InvalidCIDR \<and>
      calls (snd (deleteNode L oc n)) = calls oc @ [CallGetSubnet n] \<and>
      subnetAllocator (snd (deleteNode L oc n)) = subnetAllocator oc \<and>
      subnets (registry (snd (deleteNode L oc n))) = subnets (registry oc)) \<and>
   (fst (registry_GetSubnet oc n) = Inr sub \<and> ParseCIDR L (SubnetCIDR sub) = Some ipnet \<longrightarrow>
      calls (snd (deleteNode L oc n)) =
        calls oc @ [CallGetSubnet n, CallReleaseNetwork ipnet, CallDeleteSubnet n] \<and>
      inUse (subnetAllocator (snd (deleteNode L oc n))) =
        removeAll ipnet (inUse (subnetAllocator oc)) \<and>
      fst (deleteNode L oc n) =
        fst (registry_DeleteSubnet
               (allocator_ReleaseNetwork (snd (registry_GetSubnet oc n)) ipnet) n) \<and>
      (fst (deleteNode L oc n) = None \<longrightarrow>
         subnets (registry (snd (deleteNode L oc n))) =
           filter (\<lambda>kv. fst kv \<noteq> n) (subnets (registry oc))))"
  by (simp add: deleteNode_fst deleteNode_snd)

theorem deleteNode_steps_witness:
  "fst (registry_GetSubnet demoController ''n1'') = Inl SubnetNotFound \<and>
   fst (deleteNode demoLib demoController ''n1'') = Some SubnetNotFound \<and>
   calls (snd (deleteNode demoLib demoController ''n1'')) = [CallGetSubnet ''n1''] \<and>
   fst (registry_GetSubnet n1_bogus ''n1'') =
     Inr \<lparr>NodeIP = ''1.1.1.1'', SubnetCIDR = ''bogus''\<rparr> \<and>
   ParseCIDR demoLib ''bogus'' = None \<and>
   fst (deleteNode demoLib n1_bogus ''n1'') = Some InvalidCIDR \<and>
   calls (snd (deleteNode demoLib n1_bogus ''n1'')) = [CallGetSubnet ''n1''] \<and>
   inUse (subnetAllocator (snd (deleteNode demoLib n1_bogus ''n1''))) = [net_10_1_5] \<and>
   fst (registry_GetSubnet n1_old ''n1'') =
     Inr \<lparr>NodeIP = ''1.1.1.1'', SubnetCIDR = ''10.1.5.0/24''\<rparr> \<and>
   ParseCIDR demoLib ''10.1.5.0/24'' = Some net_10_1_5 \<and>
   fst (deleteNode demoLib n1_old ''n1'') = None \<and>
   calls (snd (deleteNode demoLib n1_old ''n1'')) =
     [CallGetSubnet ''n1'', CallReleaseNetwork net_10_1_5, CallDeleteSubnet ''n1''] \<and>
   inUse (subnetAllocator (snd (deleteNode demoLib n1_old ''n1''))) = [] \<and>
   subnets (registry (snd (deleteNode demoLib n1_old ''n1''))) = []"
proof -
  let ?bogus = "\<lparr>NodeIP = ''1.1.1.1'', SubnetCIDR = ''bogus''\<rparr>"
  let ?sub = "\<lparr>NodeIP = ''1.1.1.1'', SubnetCIDR = ''10.1.5.0/24''\<rparr>"
  have a: "fst (registry_GetSubnet demoController ''n1'') = Inl SubnetNotFound"
          "calls demoController = []"
    by (simp_all add: GetSubnet_fst demo_defs)
  have b: "fst (registry_GetSubnet n1_bogus ''n1'') = Inr ?bogus"
          "ParseCIDR demoLib (SubnetCIDR ?bogus) = None"
          "calls n1_bogus = []" "inUse (subnetAllocator n1_bogus) = [net_10_1_5]"
    by (simp_all add: GetSubnet_fst n1_bogus_def demo_defs)
  have c: "fst (registry_GetSubnet n1_old ''n1'') = Inr ?sub"
          "ParseCIDR demoLib (SubnetCIDR ?sub) = Some net_10_1_5"
          "calls n1_old = []" "inUse (subnetAllocator n1_old) = [net_10_1_5]"
          "subnets (registry n1_old) = [(''n1'', ?sub)]"
          "fst (registry_DeleteSubnet
                  (allocator_ReleaseNetwork (snd (registry_GetSubnet n1_old ''n1'')) net_10_1_5)
                  ''n1'') = None"
    by (simp_all add: GetSubnet_fst DeleteSubnet_fst n1_old_def demo_defs)
  show ?thesis
    using deleteNode_steps [where oc = demoController and n = "''n1''" and err = SubnetNotFound
            and L = demoLib]
          deleteNode_steps [where oc = n1_bogus and n = "''n1''" and sub = ?bogus
            and L = demoLib]
          deleteNode_steps [where oc = n1_old and n = "''n1''" and sub = ?sub
            and ipnet = net_10_1_5 and L = demoLib]
          a b c
    by simp
qed

subsection \<open>C9: the shutdown signal\<close>

text \<open>
  C9: when the select of \<open>watchNodes\<close> or of \<open>watchSubnets\<close> receives the shutdown signal,
  the loop sends the stop request and returns. Whatever would have come after the signal
  is not processed: the state returned is the one reached by the events received before
  the signal, with the stop request as the last call.
\<close>

theorem watch_loops_return_on_signal:
  "watchNodes L oc (map Event evs @ Signal # rest) =
     Returned (logCall (foldl (watchNodes_event L) oc evs) CallStop) \<and>
   watchSubnets oc (map Event sevs @ Signal # srest) =
     Returned (logCall (foldl watchSubnets_event oc sevs) CallStop)"
  by (simp add: watchNodes_signal watchSubnets_signal)

theorem watch_loops_return_on_signal_witness:
  "is_Returned (watchNodes demoLib n1_old
      [Event (addedEvent ''n1'' ''1.1.1.1''), Signal, Event (deletedEvent ''n1'' ''1.1.1.1'')]) \<and>
   calls (controller (watchNodes demoLib n1_old
      [Event (addedEvent ''n1'' ''1.1.1.1''), Signal, Event (deletedEvent ''n1'' ''1.1.1.1'')])) =
     [CallGetSubnet ''n1'', CallStop] \<and>
   is_Returned (watchSubnets n1_old
      [Signal, Event \<lparr>SubnetEventType = Added,
                      EventSubnet = \<lparr>NodeIP = ''1.1.1.1'', SubnetCIDR = ''10.1.5.0/24''\<rparr>\<rparr>]) \<and>
   calls (controller (watchSubnets n1_old
      [Signal, Event \<lparr>SubnetEventType = Added,
                      EventSubnet = \<lparr>NodeIP = ''1.1.1.1'', SubnetCIDR = ''10.1.5.0/24''\<rparr>\<rparr>])) =
     [CallStop]"
proof -
  have h: "fst (registry_GetSubnet n1_old ''n1'') =
             Inr \<lparr>NodeIP = ''1.1.1.1'', SubnetCIDR = ''10.1.5.0/24''\<rparr>"
          "calls n1_old = []"
    by (simp_all add: GetSubnet_fst n1_old_def demo_defs)
  show ?thesis
    using watch_loops_return_on_signal [where L = demoLib and oc = n1_old
            and evs = "[addedEvent ''n1'' ''1.1.1.1'']"
            and rest = "[Event (deletedEvent ''n1'' ''1.1.1.1'')]"
            and sevs = "[]"
            and srest = "[Event \<lparr>SubnetEventType = Added,
                      EventSubnet = \<lparr>NodeIP = ''1.1.1.1'', SubnetCIDR = ''10.1.5.0/24''\<rparr>\<rparr>]"]
          h
    by (simp add: watchNodes_event_Added)
qed

subsection \<open>C10: a failed lookup is read as a missing Subnet\<close>

text \<open>
  C10: in the Added case of \<open>watchNodes\<close> and in the sweep, whenever \<open>GetSubnet\<close> returns an
  error, be it that the node has no Subnet or that the call failed for a node that has
  one, \<open>addNode\<close> is called for the node: the next call after the lookup is \<open>GetNetwork\<close>,
  and a free network of the pool, if there is one, enters the exclusion set.
\<close>

theorem lookup_error_triggers_addNode:
  assumes "fst (registry_GetSubnet oc n) = Inl err"
  shows "watchNodes_event L oc (addedEvent n ip) =
           snd (addNode L (snd (registry_GetSubnet oc n)) n ip) \<and>
         (\<exists>cs. calls (watchNodes_event L oc (addedEvent n ip)) =
                  calls oc @ CallGetSubnet n # CallGetNetwork # cs) \<and>
         serveExistingNodes L oc (\<lparr>Name = n, IP = ip\<rparr> # rest) =
           (case addNode L (snd (registry_GetSubnet oc n)) n ip of
              (Some err', oc2) \<Rightarrow> (Some err', oc2)
            | (None, oc2) \<Rightarrow> serveExistingNodes L oc2 rest) \<and>
         (\<exists>cs. calls (snd (serveExistingNodes L oc (\<lparr>Name = n, IP = ip\<rparr> # rest))) =
                  calls oc @ CallGetSubnet n # CallGetNetwork # cs) \<and>
         inUse (subnetAllocator (watchNodes_event L oc (addedEvent n ip))) =
           (case freeNetwork (subnetAllocator oc) of
              None \<Rightarrow> inUse (subnetAllocator oc)
            | Some sn \<Rightarrow> inUse (subnetAllocator oc) @ [sn])"
proof -
  have ev: "watchNodes_event L oc (addedEvent n ip) =
              snd (addNode L (snd (registry_GetSubnet oc n)) n ip)"
    using assms by (simp add: watchNodes_event_Added)
  have evc: "\<exists>cs. calls (watchNodes_event L oc (addedEvent n ip)) =
                  calls oc @ CallGetSubnet n # CallGetNetwork # cs"
    using addNode_calls_ex [of L "snd (registry_GetSubnet oc n)" n ip] by (simp add: ev)
  have sw: "serveExistingNodes L oc (\<lparr>Name = n, IP = ip\<rparr> # rest) =
           (case addNode L (snd (registry_GetSubnet oc n)) n ip of
              (Some err', oc2) \<Rightarrow> (Some err', oc2)
            | (None, oc2) \<Rightarrow> serveExistingNodes L oc2 rest)"
    using assms by (simp add: serveExistingNodes_Cons split_def split: option.splits)
  have swc: "\<exists>cs. calls (snd (serveExistingNodes L oc (\<lparr>Name = n, IP = ip\<rparr> # rest))) =
                  calls oc @ CallGetSubnet n # CallGetNetwork # cs"
    using serveExistingNodes_lookup_error_calls [of oc "\<lparr>Name = n, IP = ip\<rparr>" err L rest] assms
    by simp
  have iu: "inUse (subnetAllocator (watchNodes_event L oc (addedEvent n ip))) =
           (case freeNetwork (subnetAllocator oc) of
              None \<Rightarrow> inUse (subnetAllocator oc)
            | Some sn \<Rightarrow> inUse (subnetAllocator oc) @ [sn])"
    by (simp add: ev addNode_inUse split: option.splits)
  from ev evc sw swc iu show ?thesis by blast
qed

theorem lookup_error_triggers_addNode_witness:
  "map_of (subnets (registry (withFaults n1_old [True]))) ''n1'' =
     Some \<lparr>NodeIP = ''1.1.1.1'', SubnetCIDR = ''10.1.5.0/24''\<rparr> \<and>
   fst (registry_GetSubnet (withFaults n1_old [True]) ''n1'') = Inl RegistryUnavailable \<and>
   inUse (subnetAllocator (withFaults n1_old [True])) = [net_10_1_5] \<and>
   inUse (subnetAllocator
            (watchNodes_event demoLib (withFaults n1_old [True]) (addedEvent ''n1'' ''1.1.1.1''))) =
     [net_10_1_5, net_10_1_0] \<and>
   take 2 (calls (watchNodes_event demoLib (withFaults n1_old [True])
                    (addedEvent ''n1'' ''1.1.1.1''))) =
     [CallGetSubnet ''n1'', CallGetNetwork] \<and>
   take 2 (calls (snd (serveExistingNodes demoLib (withFaults n1_old [True])
                         [\<lparr>Name = ''n1'', IP = ''1.1.1.1''\<rparr>]))) =
     [CallGetSubnet ''n1'', CallGetNetwork]"
proof -
  have h: "fst (registry_GetSubnet (withFaults n1_old [True]) ''n1'') = Inl RegistryUnavailable"
    by (simp add: GetSubnet_fst n1_old_def demo_defs)
  have s0: "map_of (subnets (registry (withFaults n1_old [True]))) ''n1'' =
              Some \<lparr>NodeIP = ''1.1.1.1'', SubnetCIDR = ''10.1.5.0/24''\<rparr>"
           "inUse (subnetAllocator (withFaults n1_old [True])) = [net_10_1_5]"
           "calls (withFaults n1_old [True]) = []"
           "freeNetwork (subnetAllocator (withFaults n1_old [True])) = Some net_10_1_0"
    by (simp_all add: n1_old_def demo_defs)
  show ?thesis
    using lookup_error_triggers_addNode [OF h, where L = demoLib and ip = "''1.1.1.1''"
            and rest = "[]"]
          h s0
    by auto
qed

subsection \<open>The retry loop of initSelfSubnet\<close>

declare initSelfSubnet_loop.simps [simp del]

lemma afterFailedLookup_fields [simp]:
  "hostName (afterFailedLookup oc) = hostName oc"
  "localSubnet (afterFailedLookup oc) = localSubnet oc"
  "subnetAllocator (afterFailedLookup oc) = subnetAllocator oc"
  "subnets (registry (afterFailedLookup oc)) = subnets (registry oc)"
  "faults (registry (afterFailedLookup oc)) = drop 1 (faults (registry oc))"
  "calls (afterFailedLookup oc) =
     calls oc @ [CallGetSubnet (hostName oc), CallSleep retryInterval]"
  by (simp_all add: afterFailedLookup_def)

lemma attempt_0: "attempt oc 0 = fst (registry_GetSubnet oc (hostName oc))"
  by (simp add: attempt_def)

lemma attempt_Suc: "attempt oc (Suc j) = attempt (afterFailedLookup oc) j"
  by (simp add: attempt_def funpow_swap1)

lemma loop_step_fail:
  assumes "i < retries" and "fst (registry_GetSubnet oc (hostName oc)) = Inl e"
  shows "initSelfSubnet_loop i err subnet oc =
           initSelfSubnet_loop (Suc i) (Some e) None (afterFailedLookup oc)"
  using assms
  by (subst initSelfSubnet_loop.simps)
     (simp add: split_def afterFailedLookup_def split: sum.splits)

lemma loop_step_found:
  assumes "i < retries" and "fst (registry_GetSubnet oc (hostName oc)) = Inr sub"
  shows "initSelfSubnet_loop i err subnet oc =
           (None, Some sub, snd (registry_GetSubnet oc (hostName oc)))"
  using assms
  by (subst initSelfSubnet_loop.simps) (simp add: split_def split: sum.splits)

lemma loop_exit:
  "\<not> i < retries \<Longrightarrow> initSelfSubnet_loop i err subnet oc = (err, subnet, oc)"
  by (subst initSelfSubnet_loop.simps) simp

lemma loop_all_fail:
  assumes "\<forall>j < k. isl (attempt oc j)" and "i + k = retries" and "0 < k"
  shows "\<exists>e oc'. initSelfSubnet_loop i err subnet oc = (Some e, None, oc') \<and>
           calls oc' = calls oc @
             concat (replicate k [CallGetSubnet (hostName oc), CallSleep retryInterval]) \<and>
           localSubnet oc' = localSubnet oc"
  using assms
proof (induction k arbitrary: i oc err subnet)
  case 0
  then show ?case by simp
next
  case (Suc k)
  from Suc.prems(1) have "isl (attempt oc 0)" by blast
  then obtain e where e: "fst (registry_GetSubnet oc (hostName oc)) = Inl e"
    by (auto simp: attempt_0 isl_def)
  have lt: "i < retries" using Suc.prems(2) by simp
  have step: "initSelfSubnet_loop i err subnet oc =
                initSelfSubnet_loop (Suc i) (Some e) None (afterFailedLookup oc)"
    using lt e by (rule loop_step_fail)
  show ?case
  proof (cases "k = 0")
    case True
    then have "\<not> Suc i < retries" using Suc.prems(2) by simp
    then show ?thesis
      using step True by (simp add: loop_exit)
  next
    case False
    have fails: "\<forall>j < k. isl (attempt (afterFailedLookup oc) j)"
      using Suc.prems(1) by (auto simp: attempt_Suc [symmetric])
    have "Suc i + k = retries" using Suc.prems(2) by simp
    from Suc.IH [OF fails this, of "Some e" None] False
    obtain e' oc' where
      r: "initSelfSubnet_loop (Suc i) (Some e) None (afterFailedLookup oc) = (Some e', None, oc')"
      and c: "calls oc' = calls (afterFailedLookup oc) @
             concat (replicate k [CallGetSubnet (hostName (afterFailedLookup oc)),
                                  CallSleep retryInterval])"
      and l: "localSubnet oc' = localSubnet (afterFailedLookup oc)"
      by auto
    show ?thesis
      using step r c l by simp
  qed
qed

lemma loop_first_success:
  assumes "\<forall>j < k. isl (attempt oc j)" and "attempt oc k = Inr sub" and "i + k < retries"
  shows "\<exists>oc'. initSelfSubnet_loop i err subnet oc = (None, Some sub, oc') \<and>
           calls oc' = calls oc @
             concat (replicate k [CallGetSubnet (hostName oc), CallSleep retryInterval]) @
             [CallGetSubnet (hostName oc)] \<and>
           localSubnet oc' = localSubnet oc"
  using assms
proof (induction k arbitrary: i oc err subnet)
  case 0
  then have "fst (registry_GetSubnet oc (hostName oc)) = Inr sub" by (simp add: attempt_0)
  with 0 show ?case by (simp add: loop_step_found)
next
  case (Suc k)
  from Suc.prems(1) have "isl (attempt oc 0)" by blast
  then obtain e where e: "fst (registry_GetSubnet oc (hostName oc)) = Inl e"
    by (auto simp: attempt_0 isl_def)
  have lt: "i < retries" using Suc.prems(3) by simp
  have step: "initSelfSubnet_loop i err subnet oc =
                initSelfSubnet_loop (Suc i) (Some e) None (afterFailedLookup oc)"
    using lt e by (rule loop_step_fail)
  have fails: "\<forall>j < k. isl (attempt (afterFailedLookup oc) j)"
    using Suc.prems(1) by (auto simp: attempt_Suc [symmetric])
  have found: "attempt (afterFailedLookup oc) k = Inr sub"
    using Suc.prems(2) by (simp add: attempt_Suc)
  have "Suc i + k < retries" using Suc.prems(3) by simp
  from Suc.IH [OF fails found this, of "Some e" None]
  obtain oc' where
    r: "initSelfSubnet_loop (Suc i) (Some e) None (afterFailedLookup oc) = (None, Some sub, oc')"
    and c: "calls oc' = calls (afterFailedLookup oc) @
           concat (replicate k [CallGetSubnet (hostName (afterFailedLookup oc)),
                                CallSleep retryInterval]) @
           [CallGetSubnet (hostName (afterFailedLookup oc))]"
    and l: "localSubnet oc' = localSubnet (afterFailedLookup oc)"
    by auto
  show ?case
    using step r c l by simp
qed

subsection \<open>C6: the retry budget of the bootstrap\<close>

text \<open>
  C6: if every lookup of the host's own Subnet fails, \<open>initSelfSubnet\<close> makes exactly 20
  lookups, each followed by a sleep of 500 ms, and then returns an error, leaving the
  local subnet as it was. If the first \<open>k\<close> lookups fail, with \<open>k < 20\<close>, and the next one
  returns a Subnet, it makes these \<open>k + 1\<close> lookups, 500 ms apart, stops there, returns no
  error and records that Subnet as the local subnet.
\<close>

theorem bootstrap_retry_budget:
  "((\<forall>j < 20. isl (attempt oc j)) \<longrightarrow>
      (\<exists>e. fst (initSelfSubnet oc) = Some (NoSubnetForHost e)) \<and>
      calls (snd (initSelfSubnet oc)) =
        calls oc @ concat (replicate 20 [CallGetSubnet (hostName oc), CallSleep 500]) \<and>
      localSubnet (snd (initSelfSubnet oc)) = localSubnet oc) \<and>
   (k < 20 \<and> (\<forall>j < k. isl (attempt oc j)) \<and> attempt oc k = Inr sub \<longrightarrow>
      fst (initSelfSubnet oc) = None \<and>
      localSubnet (snd (initSelfSubnet oc)) = Some sub \<and>
      calls (snd (initSelfSubnet oc)) =
        calls oc @ concat (replicate k [CallGetSubnet (hostName oc), CallSleep 500]) @
          [CallGetSubnet (hostName oc)])"
proof (intro conjI impI)
  assume a: "\<forall>j < 20. isl (attempt oc j)"
  have "\<exists>e oc'. initSelfSubnet_loop 0 None None oc = (Some e, None, oc') \<and>
           calls oc' = calls oc @
             concat (replicate 20 [CallGetSubnet (hostName oc), CallSleep retryInterval]) \<and>
           localSubnet oc' = localSubnet oc"
    using a by (intro loop_all_fail) (simp_all add: retries_def)
  then obtain e oc' where
    r: "initSelfSubnet_loop 0 None None oc = (Some e, None, oc')"
    and c: "calls oc' = calls oc @
             concat (replicate 20 [CallGetSubnet (hostName oc), CallSleep retryInterval])"
    and l: "localSubnet oc' = localSubnet oc"
    by blast
  show "\<exists>e. fst (initSelfSubnet oc) = Some (NoSubnetForHost e)"
    using r by (simp add: initSelfSubnet_def)
  show "calls (snd (initSelfSubnet oc)) =
        calls oc @ concat (replicate 20 [CallGetSubnet (hostName oc), CallSleep 500])"
    using r c by (simp add: initSelfSubnet_def retryInterval_def)
  show "localSubnet (snd (initSelfSubnet oc)) = localSubnet oc"
    using r l by (simp add: initSelfSubnet_def)
next
  assume a: "k < 20 \<and> (\<forall>j < k. isl (attempt oc j)) \<and> attempt oc k = Inr sub"
  have "\<exists>oc'. initSelfSubnet_loop 0 None None oc = (None, Some sub, oc') \<and>
           calls oc' = calls oc @
             concat (replicate k [CallGetSubnet (hostName oc), CallSleep retryInterval]) @
             [CallGetSubnet (hostName oc)] \<and>
           localSubnet oc' = localSubnet oc"
    using a by (intro loop_first_success) (simp_all add: retries_def)
  then obtain oc' where
    r: "initSelfSubnet_loop 0 None None oc = (None, Some sub, oc')"
    and c: "calls oc' = calls oc @
             concat (replicate k [CallGetSubnet (hostName oc), CallSleep retryInterval]) @
             [CallGetSubnet (hostName oc)]"
    by blast
  show "fst (initSelfSubnet oc) = None"
    using r by (simp add: initSelfSubnet_def)
  show "localSubnet (snd (initSelfSubnet oc)) = Some sub"
    using r by (simp add: initSelfSubnet_def)
  show "calls (snd (initSelfSubnet oc)) =
        calls oc @ concat (replicate k [CallGetSubnet (hostName oc), CallSleep 500]) @
          [CallGetSubnet (hostName oc)]"
    using r c by (simp add: initSelfSubnet_def retryInterval_def)
qed

lemma attempt_absent:
  "map_of (subnets (registry oc)) (hostName oc) = None \<Longrightarrow> isl (attempt oc j)"
proof (induction j arbitrary: oc)
  case 0
  then show ?case by (simp add: attempt_0 GetSubnet_fst)
next
  case (Suc j)
  then show ?case by (simp add: attempt_Suc)
qed

theorem bootstrap_retry_budget_witness:
  "isl (attempt demoController 0) \<and> isl (attempt demoController 19) \<and>
   fst (initSelfSubnet demoController) \<noteq> None \<and>
   length (filter (\<lambda>c. c = CallGetSubnet ''node1'') (calls (snd (initSelfSubnet demoController)))) =
     20 \<and>
   length (filter (\<lambda>c. c = CallSleep 500) (calls (snd (initSelfSubnet demoController)))) = 20 \<and>
   length (calls (snd (initSelfSubnet demoController))) = 40 \<and>
   localSubnet (snd (initSelfSubnet demoController)) = None \<and>
   isl (attempt node1_late 0) \<and> isl (attempt node1_late 1) \<and>
   attempt node1_late 2 = Inr \<lparr>NodeIP = ''192.168.0.1'', SubnetCIDR = ''10.1.1.0/24''\<rparr> \<and>
   fst (initSelfSubnet node1_late) = None \<and>
   localSubnet (snd (initSelfSubnet node1_late)) =
     Some \<lparr>NodeIP = ''192.168.0.1'', SubnetCIDR = ''10.1.1.0/24''\<rparr> \<and>
   calls (snd (initSelfSubnet node1_late)) =
     [CallGetSubnet ''node1'', CallSleep 500, CallGetSubnet ''node1'', CallSleep 500,
      CallGetSubnet ''node1'']"
proof -
  let ?sub = "\<lparr>NodeIP = ''192.168.0.1'', SubnetCIDR = ''10.1.1.0/24''\<rparr>"
  have a: "\<forall>j < 20. isl (attempt demoController j)"
    by (simp add: attempt_absent demo_defs)
  have a0: "calls demoController = []" "hostName demoController = ''node1''"
           "localSubnet demoController = None"
    by (simp_all add: demo_defs)
  have b0: "isl (attempt node1_late 0)"
    by (simp add: attempt_0 GetSubnet_fst nextCallFails_def) (simp add: node1_late_def demo_defs)
  have b1': "isl (attempt node1_late (Suc 0))"
    by (simp add: attempt_Suc attempt_0 GetSubnet_fst nextCallFails_def)
       (simp add: node1_late_def demo_defs)
  have b2': "attempt node1_late (Suc (Suc 0)) = Inr ?sub"
    by (simp add: attempt_Suc attempt_0 GetSubnet_fst nextCallFails_def)
       (simp add: node1_late_def demo_defs)
  have b1: "isl (attempt node1_late 1)" using b1' by simp
  have b2: "attempt node1_late 2 = Inr ?sub" using b2' by (simp add: numeral_2_eq_2)
  have b: "\<forall>j < 2. isl (attempt node1_late j)"
    using b0 b1 by (simp add: less_2_cases_iff)
  have c0: "calls node1_late = []" "hostName node1_late = ''node1''"
    by (simp_all add: node1_late_def demo_defs)
  show ?thesis
    using bootstrap_retry_budget [where oc = demoController]
          bootstrap_retry_budget [where oc = node1_late and k = 2 and sub = ?sub]
          a a0 b b0 b1 b2 c0
    by (auto simp: eval_nat_numeral)
qed

subsection \<open>The node side\<close>

lemma ruleCalls_simps [simp]:
  "ruleCalls [] = []"
  "ruleCalls (cs @ ds) = ruleCalls cs @ ruleCalls ds"
  "ruleCalls (CallAddOFRules a b c # cs) = CallAddOFRules a b c # ruleCalls cs"
  "ruleCalls (CallDelOFRules a c # cs) = CallDelOFRules a c # ruleCalls cs"
  "ruleCalls (CallGetSubnet n # cs) = ruleCalls cs"
  "ruleCalls (CallGetSubnets # cs) = ruleCalls cs"
  "ruleCalls (CallSleep t # cs) = ruleCalls cs"
  "ruleCalls (CallSetup s1 s2 s3 mtu # cs) = ruleCalls cs"
  "ruleCalls (CallGetClusterNetworkCIDR # cs) = ruleCalls cs"
  "ruleCalls (CallGetServicesNetworkCIDR # cs) = ruleCalls cs"
  by (simp_all add: ruleCalls_def isRuleCall_def)

lemma sweep_rules:
  "calls (foldl (\<lambda>c s. flowController_AddOFRules c (NodeIP s) (SubnetCIDR s) (localIP c))
            oc subs) =
     calls oc @ map (\<lambda>s. CallAddOFRules (NodeIP s) (SubnetCIDR s) (localIP oc)) subs \<and>
   localIP (foldl (\<lambda>c s. flowController_AddOFRules c (NodeIP s) (SubnetCIDR s) (localIP c))
            oc subs) = localIP oc"
  by (induction subs arbitrary: oc) (simp_all add: flowController_AddOFRules_def)

lemma ruleCalls_rules [simp]:
  "ruleCalls (map (\<lambda>s. CallAddOFRules (f s) (g s) (h s)) subs) =
     map (\<lambda>s. CallAddOFRules (f s) (g s) (h s)) subs"
  by (induction subs) simp_all

lemma loop_frame:
  "subnets (registry (snd (snd (initSelfSubnet_loop i err subnet oc)))) = subnets (registry oc) \<and>
   localIP (snd (snd (initSelfSubnet_loop i err subnet oc))) = localIP oc \<and>
   ruleCalls (calls (snd (snd (initSelfSubnet_loop i err subnet oc)))) = ruleCalls (calls oc)"
proof (induction i err subnet oc rule: initSelfSubnet_loop.induct)
  case (1 i err subnet oc)
  show ?case
  proof (cases "i < retries")
    case False
    then show ?thesis by (simp add: loop_exit)
  next
    case True
    show ?thesis
    proof (cases "fst (registry_GetSubnet oc (hostName oc))")
      case (Inr sub)
      with True show ?thesis by (simp add: loop_step_found)
    next
      case (Inl e)
      have eq: "registry_GetSubnet oc (hostName oc) = (Inl e, snd (registry_GetSubnet oc (hostName oc)))"
        using Inl by (simp add: prod_eq_iff)
      have step: "initSelfSubnet_loop i err subnet oc =
                initSelfSubnet_loop (Suc i) (Some e) None (afterFailedLookup oc)"
        using True Inl by (rule loop_step_fail)
      from "1.IH" [OF True eq [symmetric] refl]
      show ?thesis
        using step by (simp add: afterFailedLookup_def)
    qed
  qed
qed

lemma initSelfSubnet_frame:
  "subnets (registry (snd (initSelfSubnet oc))) = subnets (registry oc) \<and>
   localIP (snd (initSelfSubnet oc)) = localIP oc \<and>
   ruleCalls (calls (snd (initSelfSubnet oc))) = ruleCalls (calls oc)"
  using loop_frame [of 0 None None oc]
  by (simp add: initSelfSubnet_def split_def split: option.splits)

lemma config_getters_fields [simp]:
  "subnets (registry (snd (registry_GetClusterNetworkCIDR oc))) = subnets (registry oc)"
  "localIP (snd (registry_GetClusterNetworkCIDR oc)) = localIP oc"
  "calls (snd (registry_GetClusterNetworkCIDR oc)) = calls oc @ [CallGetClusterNetworkCIDR]"
  "subnets (registry (snd (registry_GetServicesNetworkCIDR oc))) = subnets (registry oc)"
  "localIP (snd (registry_GetServicesNetworkCIDR oc)) = localIP oc"
  "calls (snd (registry_GetServicesNetworkCIDR oc)) = calls oc @ [CallGetServicesNetworkCIDR]"
  "subnets (registry (snd (registry_GetSubnets oc))) = subnets (registry oc)"
  "localIP (snd (registry_GetSubnets oc)) = localIP oc"
  "calls (snd (registry_GetSubnets oc)) = calls oc @ [CallGetSubnets]"
  "subnets (registry (snd (flowController_Setup oc a b c mtu))) = subnets (registry oc)"
  "localIP (snd (flowController_Setup oc a b c mtu)) = localIP oc"
  "calls (snd (flowController_Setup oc a b c mtu)) = calls oc @ [CallSetup a b c mtu]"
  by (simp_all add: registry_GetClusterNetworkCIDR_def registry_GetServicesNetworkCIDR_def
        registry_GetSubnets_def flowController_Setup_def split_def)

lemma GetSubnets_fst:
  "fst (registry_GetSubnets oc) =
     (if nextCallFails oc then Inl RegistryUnavailable
      else Inr (map snd (subnets (registry oc))))"
  by (simp add: registry_GetSubnets_def split_def)

lemma subnetStartNode_rules:
  assumes "fst (subnetStartNode oc) = None"
  shows "ruleCalls (calls (snd (subnetStartNode oc))) =
           ruleCalls (calls oc) @
           map (\<lambda>s. CallAddOFRules (NodeIP s) (SubnetCIDR s) (localIP oc))
             (map snd (subnets (registry oc)))"
proof -
  let ?oc1 = "snd (initSelfSubnet oc)"
  let ?oc2 = "snd (registry_GetClusterNetworkCIDR ?oc1)"
  let ?oc3 = "snd (registry_GetServicesNetworkCIDR ?oc2)"
  have f1: "subnets (registry ?oc1) = subnets (registry oc)" "localIP ?oc1 = localIP oc"
           "ruleCalls (calls ?oc1) = ruleCalls (calls oc)"
    using initSelfSubnet_frame [of oc] by simp_all
  show ?thesis
    using assms f1
    by (auto simp: subnetStartNode_def split_def watchAndGetResource_def sweep_rules
          GetSubnets_fst comp_def
          split: option.splits sum.splits if_splits)
qed

lemma watchSubnets_event_calls:
  "calls (watchSubnets_event oc ev) =
     calls oc @
     [case SubnetEventType ev of
        Added \<Rightarrow> CallAddOFRules (NodeIP (EventSubnet ev)) (SubnetCIDR (EventSubnet ev)) (localIP oc)
      | Deleted \<Rightarrow> CallDelOFRules (NodeIP (EventSubnet ev)) (localIP oc)]"
  "localIP (watchSubnets_event oc ev) = localIP oc"
  by (simp_all add: watchSubnets_event_def flowController_AddOFRules_def
        flowController_DelOFRules_def split: EventType.splits)

lemma foldl_watchSubnets_calls:
  "calls (foldl watchSubnets_event oc evs) =
     calls oc @
     map (\<lambda>ev. case SubnetEventType ev of
                  Added \<Rightarrow> CallAddOFRules (NodeIP (EventSubnet ev)) (SubnetCIDR (EventSubnet ev))
                             (localIP oc)
                | Deleted \<Rightarrow> CallDelOFRules (NodeIP (EventSubnet ev)) (localIP oc)) evs \<and>
   localIP (foldl watchSubnets_event oc evs) = localIP oc"
  by (induction evs arbitrary: oc) (simp_all add: watchSubnets_event_calls split: EventType.splits)

subsection \<open>C8: the forwarding rules of the node\<close>

text \<open>
  C8: when \<open>subnetStartNode\<close> succeeds, the rule calls it has made are one
  \<open>AddOFRules(NodeIP, SubnetCIDR, localIP)\<close> for every Subnet of the snapshot, in the order
  of the snapshot, and nothing else. The live loop makes, for every event it receives,
  \<open>AddOFRules\<close> with the event's NodeIP and SubnetCIDR when the event is Added and
  \<open>DelOFRules\<close> with the event's NodeIP when it is Deleted, with the local IP as last
  argument, and no other call.
\<close>

theorem node_propagator_rules:
  "(fst (subnetStartNode oc) = None \<longrightarrow>
      ruleCalls (calls (snd (subnetStartNode oc))) =
        ruleCalls (calls oc) @
        map (\<lambda>s. CallAddOFRules (NodeIP s) (SubnetCIDR s) (localIP oc))
          (map snd (subnets (registry oc)))) \<and>
   watchSubnets oc (map Event evs) = Selecting (foldl watchSubnets_event oc evs) \<and>
   calls (foldl watchSubnets_event oc evs) =
     calls oc @
     map (\<lambda>ev. case SubnetEventType ev of
                  Added \<Rightarrow> CallAddOFRules (NodeIP (EventSubnet ev)) (SubnetCIDR (EventSubnet ev))
                             (localIP oc)
                | Deleted \<Rightarrow> CallDelOFRules (NodeIP (EventSubnet ev)) (localIP oc)) evs"
  by (simp add: subnetStartNode_rules watchSubnets_events foldl_watchSubnets_calls)

theorem node_propagator_rules_witness:
  "fst (subnetStartNode node1_ready) = None \<and>
   ruleCalls (calls (snd (subnetStartNode node1_ready))) =
     [CallAddOFRules ''192.168.0.1'' ''10.1.0.0/24'' ''192.168.0.1'',
      CallAddOFRules ''192.168.0.2'' ''10.1.1.0/24'' ''192.168.0.1''] \<and>
   calls (foldl watchSubnets_event node1_ready
            [subnetAdded ''192.168.0.3'' ''10.1.5.0/24'',
             subnetDeleted ''192.168.0.2'' ''10.1.1.0/24'']) =
     [CallAddOFRules ''192.168.0.3'' ''10.1.5.0/24'' ''192.168.0.1'',
      CallDelOFRules ''192.168.0.2'' ''192.168.0.1'']"
proof -
  let ?own = "\<lparr>NodeIP = ''192.168.0.1'', SubnetCIDR = ''10.1.0.0/24''\<rparr>"
  have g: "fst (registry_GetSubnet node1_ready (hostName node1_ready)) = Inr ?own"
    by (simp add: GetSubnet_fst node1_ready_def demo_defs)
  have l: "initSelfSubnet_loop 0 None None node1_ready =
             (None, Some ?own, snd (registry_GetSubnet node1_ready (hostName node1_ready)))"
    using g by (intro loop_step_found) (simp_all add: retries_def)
  have i: "fst (initSelfSubnet node1_ready) = None"
          "localSubnet (snd (initSelfSubnet node1_ready)) = Some ?own"
          "faults (registry (snd (initSelfSubnet node1_ready))) = []"
          "flowController (snd (initSelfSubnet node1_ready)) = \<lparr>setupFails = False\<rparr>"
    using l by (simp_all add: initSelfSubnet_def node1_ready_def demo_defs)
  have ok: "fst (subnetStartNode node1_ready) = None"
    using i
    by (simp add: subnetStartNode_def split_def watchAndGetResource_def
          registry_GetClusterNetworkCIDR_def registry_GetServicesNetworkCIDR_def
          registry_GetSubnets_def flowController_Setup_def nextCallFails_def)
  have s0: "map snd (subnets (registry node1_ready)) =
              [?own, \<lparr>NodeIP = ''192.168.0.2'', SubnetCIDR = ''10.1.1.0/24''\<rparr>]"
           "calls node1_ready = []" "localIP node1_ready = ''192.168.0.1''"
    by (simp_all add: node1_ready_def demo_defs)
  show ?thesis
    using node_propagator_rules [where oc = node1_ready
            and evs = "[subnetAdded ''192.168.0.3'' ''10.1.5.0/24'',
                        subnetDeleted ''192.168.0.2'' ''10.1.1.0/24'']"]
          ok s0
    by (simp add: subnetAdded_def subnetDeleted_def)
qed

subsection \<open>The sweep when it succeeds\<close>




lemma addNode_ok_iff:
  "fst (addNode L oc n ip) = None \<longleftrightarrow>
     freeNetwork (subnetAllocator oc) \<noteq> None \<and> ip \<noteq> '''' \<and> ip \<noteq> ''127.0.0.1'' \<and>
     \<not> nextCallFails oc \<and> map_of (subnets (registry oc)) n = None"
  by (auto simp: addNode_fst CreateSubnet_fst nextCallFails_def split: option.splits)

lemma card_uncovered_step:
  assumes "finite A" and "n \<notin> K"
  shows "card (insert n A - K) = Suc (card (A - insert n K))"
proof -
  have "insert n A - K = insert n (A - insert n K)" using assms by auto
  moreover have "n \<notin> A - insert n K" by simp
  moreover have "finite (A - insert n K)" using assms by simp
  ultimately show ?thesis by simp
qed

lemma sweep_ok:
  assumes "fst (serveExistingNodes L oc ns) = None"
  shows "(\<forall>m sub. map_of (subnets (registry oc)) m = Some sub \<longrightarrow>
            map_of (subnets (registry (snd (serveExistingNodes L oc ns)))) m = Some sub) \<and>
         (\<exists>new. inUse (subnetAllocator (snd (serveExistingNodes L oc ns))) =
                   inUse (subnetAllocator oc) @ new \<and>
                 length new = card (Name ` set ns - fst ` set (subnets (registry oc))) \<and>
                 (\<forall>node \<in> set ns. map_of (subnets (registry oc)) (Name node) = None \<longrightarrow>
                    (\<exists>sub sn. map_of (subnets (registry (snd (serveExistingNodes L oc ns))))
                                (Name node) = Some sub \<and>
                              SubnetCIDR sub = IPNetString L sn \<and> sn \<in> set new)))"
  using assms
proof (induction ns arbitrary: oc)
  case Nil
  show ?case by simp
next
  case (Cons node rest)
  let ?n = "Name node"
  let ?oc1 = "snd (registry_GetSubnet oc ?n)"
  show ?case
  proof (cases "fst (registry_GetSubnet oc ?n)")
    case (Inr sub0)
    then have cov: "map_of (subnets (registry oc)) ?n = Some sub0"
      by (simp add: GetSubnet_found)
    have run: "serveExistingNodes L oc (node # rest) = serveExistingNodes L ?oc1 rest"
      using Inr by (simp add: serveExistingNodes_Cons)
    have ok: "fst (serveExistingNodes L ?oc1 rest) = None"
      using Cons.prems run by simp
    have key: "?n \<in> fst ` set (subnets (registry oc))"
      using cov by (metis map_of_eq_None_iff option.distinct(1))
    have cnt: "Name ` set (node # rest) - fst ` set (subnets (registry oc)) =
               Name ` set rest - fst ` set (subnets (registry oc))"
      using key by auto
    from Cons.IH [OF ok] obtain new where
      k: "\<forall>m sub. map_of (subnets (registry oc)) m = Some sub \<longrightarrow>
            map_of (subnets (registry (snd (serveExistingNodes L ?oc1 rest)))) m = Some sub"
      and u: "inUse (subnetAllocator (snd (serveExistingNodes L ?oc1 rest))) =
                inUse (subnetAllocator oc) @ new"
      and l: "length new = card (Name ` set rest - fst ` set (subnets (registry oc)))"
      and c: "\<forall>node \<in> set rest. map_of (subnets (registry oc)) (Name node) = None \<longrightarrow>
                (\<exists>sub sn. map_of (subnets (registry (snd (serveExistingNodes L ?oc1 rest))))
                            (Name node) = Some sub \<and>
                          SubnetCIDR sub = IPNetString L sn \<and> sn \<in> set new)"
      by auto
    have c': "\<forall>node' \<in> set (node # rest). map_of (subnets (registry oc)) (Name node') = None \<longrightarrow>
                (\<exists>sub sn. map_of (subnets (registry (snd (serveExistingNodes L ?oc1 rest))))
                            (Name node') = Some sub \<and>
                          SubnetCIDR sub = IPNetString L sn \<and> sn \<in> set new)"
      using c cov by auto
    show ?thesis
      unfolding run cnt using k u l c' by blast
  next
    case (Inl e)
    let ?oc2 = "snd (addNode L ?oc1 ?n (IP node))"
    have added: "fst (addNode L ?oc1 ?n (IP node)) = None"
      using Cons.prems Inl by (simp add: serveExistingNodes_Cons split: option.splits)
    have run: "serveExistingNodes L oc (node # rest) = serveExistingNodes L ?oc2 rest"
      using Inl added by (simp add: serveExistingNodes_Cons)
    have ok: "fst (serveExistingNodes L ?oc2 rest) = None"
      using Cons.prems run by simp
    from added obtain sn where
      fr: "freeNetwork (subnetAllocator oc) = Some sn"
      and unc: "map_of (subnets (registry oc)) ?n = None"
      by (auto simp: addNode_ok_iff)
    let ?rec = "\<lparr>NodeIP = IP node, SubnetCIDR = IPNetString L sn\<rparr>"
    have subs2: "subnets (registry ?oc2) = subnets (registry oc) @ [(?n, ?rec)]"
      using added fr by (simp add: addNode_subnets)
    have use2: "inUse (subnetAllocator ?oc2) = inUse (subnetAllocator oc) @ [sn]"
      using fr by (simp add: addNode_inUse)
    have nokey: "?n \<notin> fst ` set (subnets (registry oc))"
      using unc by (simp add: map_of_eq_None_iff)
    have keys2: "fst ` set (subnets (registry ?oc2)) = insert ?n (fst ` set (subnets (registry oc)))"
      by (auto simp: subs2)
    have cnt: "card (Name ` set (node # rest) - fst ` set (subnets (registry oc))) =
               Suc (card (Name ` set rest - fst ` set (subnets (registry ?oc2))))"
      using card_uncovered_step [OF _ nokey, of "Name ` set rest"] by (simp add: keys2)
    from Cons.IH [OF ok] obtain new where
      k: "\<forall>m sub. map_of (subnets (registry ?oc2)) m = Some sub \<longrightarrow>
            map_of (subnets (registry (snd (serveExistingNodes L ?oc2 rest)))) m = Some sub"
      and u: "inUse (subnetAllocator (snd (serveExistingNodes L ?oc2 rest))) =
                inUse (subnetAllocator ?oc2) @ new"
      and l: "length new = card (Name ` set rest - fst ` set (subnets (registry ?oc2)))"
      and c: "\<forall>node \<in> set rest. map_of (subnets (registry ?oc2)) (Name node) = None \<longrightarrow>
                (\<exists>sub sn. map_of (subnets (registry (snd (serveExistingNodes L ?oc2 rest))))
                            (Name node) = Some sub \<and>
                          SubnetCIDR sub = IPNetString L sn \<and> sn \<in> set new)"
      by auto
    have keep2: "map_of (subnets (registry ?oc2)) m = Some sub"
      if "map_of (subnets (registry oc)) m = Some sub" for m sub
      using that by (simp add: subs2 map_add_Some_iff)
    have rec2: "map_of (subnets (registry ?oc2)) ?n = Some ?rec"
      using unc by (simp add: subs2 map_add_Some_iff)
    have k': "\<forall>m sub. map_of (subnets (registry oc)) m = Some sub \<longrightarrow>
            map_of (subnets (registry (snd (serveExistingNodes L ?oc2 rest)))) m = Some sub"
      using k keep2 by blast
    have u': "inUse (subnetAllocator (snd (serveExistingNodes L ?oc2 rest))) =
                inUse (subnetAllocator oc) @ (sn # new)"
      using u use2 by simp
    have l': "length (sn # new) =
                card (Name ` set (node # rest) - fst ` set (subnets (registry oc)))"
      using l cnt by simp
    have c': "\<exists>sub sn'. map_of (subnets (registry (snd (serveExistingNodes L ?oc2 rest))))
                            (Name node') = Some sub \<and>
                          SubnetCIDR sub = IPNetString L sn' \<and> sn' \<in> set (sn # new)"
      if mem: "node' \<in> set (node # rest)"
        and un: "map_of (subnets (registry oc)) (Name node') = None" for node'
    proof (cases "Name node' = ?n")
      case True
      have "map_of (subnets (registry (snd (serveExistingNodes L ?oc2 rest)))) (Name node') =
              Some ?rec"
        using k rec2 True by simp
      then show ?thesis by force
    next
      case False
      then have r: "node' \<in> set rest" using mem by auto
      have "map_of (subnets (registry ?oc2)) (Name node') = None"
        using un False by (simp add: subs2 map_add_def)
      with c r obtain sub sn' where
        "map_of (subnets (registry (snd (serveExistingNodes L ?oc2 rest)))) (Name node') =
           Some sub" "SubnetCIDR sub = IPNetString L sn'" "sn' \<in> set new"
        by blast
      then show ?thesis by force
    qed
    show ?thesis
      unfolding run using k' u' l' c' by blast
  qed
qed

lemma card_uncovered_pos:
  assumes "finite A" and "n \<notin> K"
  shows "0 < card (insert n A - K)"
  using card_uncovered_step [OF assms] by simp

lemma sweep_only_uncovered:
  assumes "faults (registry oc) = []"
  shows "(\<forall>m sub. map_of (subnets (registry oc)) m = Some sub \<longrightarrow>
            map_of (subnets (registry (snd (serveExistingNodes L oc ns)))) m = Some sub) \<and>
         (\<exists>new. inUse (subnetAllocator (snd (serveExistingNodes L oc ns))) =
                   inUse (subnetAllocator oc) @ new \<and>
                 length new \<le> card (Name ` set ns - fst ` set (subnets (registry oc))))"
  using assms
proof (induction ns arbitrary: oc)
  case Nil
  show ?case by simp
next
  case (Cons node rest)
  let ?n = "Name node"
  let ?K = "fst ` set (subnets (registry oc))"
  let ?oc1 = "snd (registry_GetSubnet oc ?n)"
  have nf: "\<not> nextCallFails oc" using Cons.prems by (simp add: nextCallFails_def)
  have f1: "faults (registry ?oc1) = []" using Cons.prems by simp
  show ?case
  proof (cases "map_of (subnets (registry oc)) ?n")
    case (Some sub0)
    then have g: "fst (registry_GetSubnet oc ?n) = Inr sub0"
      using nf by (simp add: GetSubnet_fst)
    have run: "serveExistingNodes L oc (node # rest) = serveExistingNodes L ?oc1 rest"
      using g by (simp add: serveExistingNodes_Cons)
    have key: "?n \<in> ?K"
      using Some by (metis map_of_eq_None_iff option.distinct(1))
    have cnt: "Name ` set (node # rest) - ?K = Name ` set rest - ?K"
      using key by auto
    from Cons.IH [OF f1] show ?thesis
      unfolding run cnt by simp
  next
    case None
    then have g: "fst (registry_GetSubnet oc ?n) = Inl SubnetNotFound"
      using nf by (simp add: GetSubnet_fst)
    have nokey: "?n \<notin> ?K" using None by (simp add: map_of_eq_None_iff)
    have pos: "0 < card (Name ` set (node # rest) - ?K)"
      using card_uncovered_pos [OF _ nokey, of "Name ` set rest"] by simp
    let ?oc2 = "snd (addNode L ?oc1 ?n (IP node))"
    show ?thesis
    proof (cases "fst (addNode L ?oc1 ?n (IP node))")
      case (Some e)
      then have run: "serveExistingNodes L oc (node # rest) = (Some e, ?oc2)"
        using g by (simp add: serveExistingNodes_Cons)
      have subs: "subnets (registry ?oc2) = subnets (registry oc)"
        using Some by (simp add: addNode_subnets split: option.splits)
      have "\<exists>new. inUse (subnetAllocator ?oc2) = inUse (subnetAllocator oc) @ new \<and>
                  length new \<le> 1"
        by (cases "freeNetwork (subnetAllocator oc)") (simp_all add: addNode_inUse)
      then obtain new where
        "inUse (subnetAllocator ?oc2) = inUse (subnetAllocator oc) @ new" "length new \<le> 1"
        by blast
      then show ?thesis
        unfolding run using subs pos by (auto intro!: exI [of _ new])
    next
      case added: None
      have run: "serveExistingNodes L oc (node # rest) = serveExistingNodes L ?oc2 rest"
        using g added by (simp add: serveExistingNodes_Cons)
      from added obtain sn where fr: "freeNetwork (subnetAllocator oc) = Some sn"
        by (auto simp: addNode_ok_iff)
      let ?rec = "\<lparr>NodeIP = IP node, SubnetCIDR = IPNetString L sn\<rparr>"
      have subs2: "subnets (registry ?oc2) = subnets (registry oc) @ [(?n, ?rec)]"
        using added fr by (simp add: addNode_subnets)
      have use2: "inUse (subnetAllocator ?oc2) = inUse (subnetAllocator oc) @ [sn]"
        using fr by (simp add: addNode_inUse)
      have f2: "faults (registry ?oc2) = []"
        using Cons.prems by (simp add: addNode_faults)
      have keys2: "fst ` set (subnets (registry ?oc2)) = insert ?n ?K"
        by (auto simp: subs2)
      have cnt: "card (Name ` set (node # rest) - ?K) =
                 Suc (card (Name ` set rest - fst ` set (subnets (registry ?oc2))))"
        using card_uncovered_step [OF _ nokey, of "Name ` set rest"] by (simp add: keys2)
      from Cons.IH [OF f2] obtain new where
        k: "\<forall>m sub. map_of (subnets (registry ?oc2)) m = Some sub \<longrightarrow>
              map_of (subnets (registry (snd (serveExistingNodes L ?oc2 rest)))) m = Some sub"
        and u: "inUse (subnetAllocator (snd (serveExistingNodes L ?oc2 rest))) =
                  inUse (subnetAllocator ?oc2) @ new"
        and l: "length new \<le> card (Name ` set rest - fst ` set (subnets (registry ?oc2)))"
        by blast
      have keep2: "map_of (subnets (registry ?oc2)) m = Some sub"
        if "map_of (subnets (registry oc)) m = Some sub" for m sub
        using that by (simp add: subs2 map_add_Some_iff)
      have k': "\<forall>m sub. map_of (subnets (registry oc)) m = Some sub \<longrightarrow>
              map_of (subnets (registry (snd (serveExistingNodes L ?oc2 rest)))) m = Some sub"
        using k keep2 by blast
      have u': "inUse (subnetAllocator (snd (serveExistingNodes L ?oc2 rest))) =
                  inUse (subnetAllocator oc) @ (sn # new)"
        using u use2 by simp
      have l': "length (sn # new) \<le> card (Name ` set (node # rest) - ?K)"
        using l cnt by simp
      show ?thesis
        unfolding run using k' u' l' by blast
    qed
  qed
qed

lemmas node_defs = node_a_def node_b_def node_c_def node_n1_def

subsection \<open>The sweep when addNode fails\<close>

lemma serveExistingNodes_append:
  "fst (serveExistingNodes L oc pre) = None \<Longrightarrow>
   serveExistingNodes L oc (pre @ xs) =
     serveExistingNodes L (snd (serveExistingNodes L oc pre)) xs"
proof (induction pre arbitrary: oc)
  case Nil
  show ?case by simp
next
  case (Cons node rest)
  show ?case
  proof (cases "fst (registry_GetSubnet oc (Name node))")
    case (Inr sub)
    then show ?thesis using Cons by (simp add: serveExistingNodes_Cons)
  next
    case (Inl err)
    then show ?thesis using Cons
      by (cases "fst (addNode L (snd (registry_GetSubnet oc (Name node))) (Name node) (IP node))")
         (simp_all add: serveExistingNodes_Cons)
  qed
qed

lemma sweep_returns_at_error:
  assumes pre: "fst (serveExistingNodes L oc pre) = None"
    and g: "isl (fst (registry_GetSubnet (snd (serveExistingNodes L oc pre)) (Name node)))"
    and a: "fst (addNode L (snd (registry_GetSubnet (snd (serveExistingNodes L oc pre))
                                   (Name node))) (Name node) (IP node)) = Some e"
  shows "serveExistingNodes L oc (pre @ node # rest) =
           (Some e, snd (addNode L (snd (registry_GetSubnet (snd (serveExistingNodes L oc pre))
                                           (Name node))) (Name node) (IP node)))"
proof -
  obtain err where
    "fst (registry_GetSubnet (snd (serveExistingNodes L oc pre)) (Name node)) = Inl err"
    using g by (auto simp: isl_def)
  then show ?thesis
    using a by (simp add: serveExistingNodes_append [OF pre] serveExistingNodes_Cons)
qed

lemma sweep_error_split:
  "fst (serveExistingNodes L oc ns) = Some e \<Longrightarrow>
   \<exists>pre node rest.
     ns = pre @ node # rest \<and>
     fst (serveExistingNodes L oc pre) = None \<and>
     isl (fst (registry_GetSubnet (snd (serveExistingNodes L oc pre)) (Name node))) \<and>
     fst (addNode L (snd (registry_GetSubnet (snd (serveExistingNodes L oc pre)) (Name node)))
            (Name node) (IP node)) = Some e"
proof (induction ns arbitrary: oc)
  case Nil
  then show ?case by simp
next
  case (Cons node rest)
  let ?oc1 = "snd (registry_GetSubnet oc (Name node))"
  let ?oc2 = "snd (addNode L ?oc1 (Name node) (IP node))"
  show ?case
  proof (cases "fst (registry_GetSubnet oc (Name node))")
    case (Inr sub)
    then have "fst (serveExistingNodes L ?oc1 rest) = Some e"
      using Cons.prems by (simp add: serveExistingNodes_Cons)
    from Cons.IH [OF this] obtain pre nd rs where
      r: "rest = pre @ nd # rs" "fst (serveExistingNodes L ?oc1 pre) = None"
         "isl (fst (registry_GetSubnet (snd (serveExistingNodes L ?oc1 pre)) (Name nd)))"
         "fst (addNode L (snd (registry_GetSubnet (snd (serveExistingNodes L ?oc1 pre)) (Name nd)))
                (Name nd) (IP nd)) = Some e"
      by blast
    have s: "serveExistingNodes L oc (node # pre) = serveExistingNodes L ?oc1 pre"
      using Inr by (simp add: serveExistingNodes_Cons)
    show ?thesis
      by (rule exI [where x = "node # pre"], rule exI [where x = nd], rule exI [where x = rs])
         (use r s in simp)
  next
    case (Inl err)
    show ?thesis
    proof (cases "fst (addNode L ?oc1 (Name node) (IP node))")
      case (Some e')
      then have "e' = e" using Cons.prems Inl by (simp add: serveExistingNodes_Cons)
      then show ?thesis
        using Inl Some
        by (intro exI [where x = "[]"] exI [where x = node] exI [where x = rest]) simp
    next
      case None
      then have "fst (serveExistingNodes L ?oc2 rest) = Some e"
        using Cons.prems Inl by (simp add: serveExistingNodes_Cons)
      from Cons.IH [OF this] obtain pre nd rs where
        r: "rest = pre @ nd # rs" "fst (serveExistingNodes L ?oc2 pre) = None"
           "isl (fst (registry_GetSubnet (snd (serveExistingNodes L ?oc2 pre)) (Name nd)))"
           "fst (addNode L (snd (registry_GetSubnet (snd (serveExistingNodes L ?oc2 pre)) (Name nd)))
                  (Name nd) (IP nd)) = Some e"
        by blast
      have s: "serveExistingNodes L oc (node # pre) = serveExistingNodes L ?oc2 pre"
        using Inl None by (simp add: serveExistingNodes_Cons)
      show ?thesis
        by (rule exI [where x = "node # pre"], rule exI [where x = nd], rule exI [where x = rs])
           (use r s in simp)
    qed
  qed
qed

subsection \<open>C7: the initial sweep\<close>

text \<open>
  C7 says that the sweep allocates a subnet for an enumerated node if and only if the
  node has no Subnet record. The sweep returns at the first error of \<open>addNode\<close>, and the
  nodes after it are not served. On the small cluster, with the nodes \<open>a\<close> and \<open>b\<close>, when
  the \<open>CreateSubnet\<close> call for \<open>a\<close> fails the sweep returns that error: \<open>b\<close> has no record
  before, and none after, although 10.1.1.0/24 is still free. With the nodes \<open>a\<close>, \<open>b\<close>
  and \<open>c\<close> and no failing call, the pool of two networks is exhausted at \<open>c\<close>, which has
  no record before and none after. And when the lookup of \<open>n1\<close>, which has a record,
  fails, the sweep takes 10.1.0.0/24 from the allocator for it before \<open>CreateSubnet\<close>
  refuses the second record.
\<close>

theorem sweep_stops_at_first_error:
  "map_of (subnets (registry (withFaults demoController [False, True]))) ''b'' = None \<and>
   fst (serveExistingNodes demoLib (withFaults demoController [False, True])
          [node_a, node_b]) = Some RegistryUnavailable \<and>
   map_of (subnets (registry (snd (serveExistingNodes demoLib
                                     (withFaults demoController [False, True])
                                     [node_a, node_b])))) ''b'' = None \<and>
   freeNetwork (subnetAllocator (snd (serveExistingNodes demoLib
                                        (withFaults demoController [False, True])
                                        [node_a, node_b]))) = Some net_10_1_1 \<and>
   map_of (subnets (registry demoController)) ''c'' = None \<and>
   fst (serveExistingNodes demoLib demoController [node_a, node_b, node_c]) =
     Some NoSubnetsAvailable \<and>
   map_of (subnets (registry (snd (serveExistingNodes demoLib demoController
                                     [node_a, node_b, node_c])))) ''c'' = None \<and>
   map_of (subnets (registry (withFaults n1_old [True]))) ''n1'' =
     Some \<lparr>NodeIP = ''1.1.1.1'', SubnetCIDR = ''10.1.5.0/24''\<rparr> \<and>
   inUse (subnetAllocator (withFaults n1_old [True])) = [net_10_1_5] \<and>
   fst (serveExistingNodes demoLib (withFaults n1_old [True]) [node_n1]) = Some SubnetExists \<and>
   inUse (subnetAllocator (snd (serveExistingNodes demoLib (withFaults n1_old [True])
                                  [node_n1]))) = [net_10_1_5, net_10_1_0]"
  by (simp add: serveExistingNodes_Cons GetSubnet_fst addNode_fst addNode_subnets addNode_inUse
        CreateSubnet_fst addNode_faults node_defs n1_old_def demo_defs)

text \<open>
  C7 as amended: if no registry call of the sweep fails, the sweep takes networks only
  for enumerated nodes without a Subnet record: every record that existed before the
  sweep is unchanged, and the networks taken from the allocator are at most as many as
  the distinct names of enumerated nodes without a record. If the sweep returns without
  error, then again every record that existed before is unchanged, the networks taken
  are exactly as many as the distinct names of enumerated nodes without a record, and
  every enumerated node without a record has afterwards a record whose CIDR is one of
  these networks. The sweep returns at the first error of \<open>addNode\<close>: when the nodes
  \<open>pre\<close> are served without error, the lookup of the next node returns an error and
  \<open>addNode\<close> for it returns the error \<open>e\<close>, the sweep returns \<open>e\<close> and the state that
  \<open>addNode\<close> left, whatever nodes \<open>rest\<close> are enumerated after it, so these are not
  served; and every sweep that returns an error is of this form.
\<close>

theorem sweep_allocates_for_uncovered:
  "(faults (registry oc) = [] \<longrightarrow>
      (\<forall>m sub. map_of (subnets (registry oc)) m = Some sub \<longrightarrow>
         map_of (subnets (registry (snd (serveExistingNodes L oc ns)))) m = Some sub) \<and>
      (\<exists>new. inUse (subnetAllocator (snd (serveExistingNodes L oc ns))) =
                inUse (subnetAllocator oc) @ new \<and>
              length new \<le> card (Name ` set ns - fst ` set (subnets (registry oc))))) \<and>
   (fst (serveExistingNodes L oc ns) = None \<longrightarrow>
      (\<forall>m sub. map_of (subnets (registry oc)) m = Some sub \<longrightarrow>
         map_of (subnets (registry (snd (serveExistingNodes L oc ns)))) m = Some sub) \<and>
      (\<exists>new. inUse (subnetAllocator (snd (serveExistingNodes L oc ns))) =
                inUse (subnetAllocator oc) @ new \<and>
              length new = card (Name ` set ns - fst ` set (subnets (registry oc))) \<and>
              (\<forall>node \<in> set ns. map_of (subnets (registry oc)) (Name node) = None \<longrightarrow>
                 (\<exists>sub sn. map_of (subnets (registry (snd (serveExistingNodes L oc ns))))
                             (Name node) = Some sub \<and>
                           SubnetCIDR sub = IPNetString L sn \<and> sn \<in> set new)))) \<and>
   (fst (serveExistingNodes L oc pre) = None \<and>
    isl (fst (registry_GetSubnet (snd (serveExistingNodes L oc pre)) (Name failing))) \<and>
    fst (addNode L (snd (registry_GetSubnet (snd (serveExistingNodes L oc pre)) (Name failing)))
           (Name failing) (IP failing)) = Some e \<longrightarrow>
      serveExistingNodes L oc (pre @ failing # rest) =
        (Some e,
         snd (addNode L (snd (registry_GetSubnet (snd (serveExistingNodes L oc pre))
                               (Name failing))) (Name failing) (IP failing)))) \<and>
   (fst (serveExistingNodes L oc ns) = Some e \<longrightarrow>
      (\<exists>pre' node' rest'.
         ns = pre' @ node' # rest' \<and>
         fst (serveExistingNodes L oc pre') = None \<and>
         isl (fst (registry_GetSubnet (snd (serveExistingNodes L oc pre')) (Name node'))) \<and>
         fst (addNode L (snd (registry_GetSubnet (snd (serveExistingNodes L oc pre'))
                               (Name node'))) (Name node') (IP node')) = Some e))"
  apply (intro conjI)
  subgoal using sweep_only_uncovered [of oc L ns] by blast
  subgoal using sweep_ok [of L oc ns] by blast
  subgoal using sweep_returns_at_error [of L oc pre failing e rest] by blast
  subgoal using sweep_error_split [of L oc ns e] by blast
  done

theorem sweep_allocates_for_uncovered_witness:
  "fst (serveExistingNodes demoLib n1_old [node_n1, node_a]) = None \<and>
   faults (registry n1_old) = [] \<and>
   map_of (subnets (registry n1_old)) ''n1'' =
     Some \<lparr>NodeIP = ''1.1.1.1'', SubnetCIDR = ''10.1.5.0/24''\<rparr> \<and>
   map_of (subnets (registry (snd (serveExistingNodes demoLib n1_old [node_n1, node_a])))) ''n1'' =
     Some \<lparr>NodeIP = ''1.1.1.1'', SubnetCIDR = ''10.1.5.0/24''\<rparr> \<and>
   map_of (subnets (registry n1_old)) ''a'' = None \<and>
   map_of (subnets (registry (snd (serveExistingNodes demoLib n1_old [node_n1, node_a])))) ''a'' =
     Some \<lparr>NodeIP = ''1.1.1.2'', SubnetCIDR = ''10.1.0.0/24''\<rparr> \<and>
   inUse (subnetAllocator n1_old) = [net_10_1_5] \<and>
   length (inUse (subnetAllocator (snd (serveExistingNodes demoLib n1_old [node_n1, node_a])))) =
     2 \<and>
   fst (serveExistingNodes demoLib (withFaults n1_old [False, False, True]) [node_n1]) = None \<and>
   isl (fst (registry_GetSubnet
               (snd (serveExistingNodes demoLib (withFaults n1_old [False, False, True])
                       [node_n1])) ''a'')) \<and>
   fst (serveExistingNodes demoLib (withFaults n1_old [False, False, True])
          [node_n1, node_a, node_b]) = Some RegistryUnavailable \<and>
   snd (serveExistingNodes demoLib (withFaults n1_old [False, False, True])
          [node_n1, node_a, node_b]) =
     snd (addNode demoLib
            (snd (registry_GetSubnet
                    (snd (serveExistingNodes demoLib (withFaults n1_old [False, False, True])
                            [node_n1])) ''a'')) ''a'' ''1.1.1.2'') \<and>
   map_of (subnets (registry (snd (serveExistingNodes demoLib
                                     (withFaults n1_old [False, False, True])
                                     [node_n1, node_a, node_b])))) ''b'' = None \<and>
   (\<exists>pre node rest.
      [node_n1, node_a, node_b] = pre @ node # rest \<and>
      fst (serveExistingNodes demoLib (withFaults n1_old [False, False, True]) pre) = None \<and>
      fst (addNode demoLib
             (snd (registry_GetSubnet
                     (snd (serveExistingNodes demoLib (withFaults n1_old [False, False, True])
                             pre)) (Name node))) (Name node) (IP node)) =
        Some RegistryUnavailable)"
proof -
  have ok: "fst (serveExistingNodes demoLib n1_old [node_n1, node_a]) = None"
    by (simp add: serveExistingNodes_Cons GetSubnet_fst addNode_fst CreateSubnet_fst
          node_defs n1_old_def demo_defs)
  have s0: "map_of (subnets (registry n1_old)) ''n1'' =
              Some \<lparr>NodeIP = ''1.1.1.1'', SubnetCIDR = ''10.1.5.0/24''\<rparr>"
           "map_of (subnets (registry n1_old)) ''a'' = None"
           "inUse (subnetAllocator n1_old) = [net_10_1_5]"
           "faults (registry n1_old) = []"
    by (simp_all add: n1_old_def demo_defs)
  have a: "map_of (subnets (registry (snd (serveExistingNodes demoLib n1_old
                                             [node_n1, node_a])))) ''a'' =
             Some \<lparr>NodeIP = ''1.1.1.2'', SubnetCIDR = ''10.1.0.0/24''\<rparr>"
    by (simp add: serveExistingNodes_Cons GetSubnet_fst addNode_fst addNode_subnets
          CreateSubnet_fst node_defs n1_old_def demo_defs)
  have c: "card (Name ` set [node_n1, node_a] - fst ` set (subnets (registry n1_old))) = 1"
    by (simp add: node_defs n1_old_def demo_defs)
  from sweep_allocates_for_uncovered [where L = demoLib and oc = n1_old
         and ns = "[node_n1, node_a]"] ok
  obtain new where
    k: "\<forall>m sub. map_of (subnets (registry n1_old)) m = Some sub \<longrightarrow>
          map_of (subnets (registry (snd (serveExistingNodes demoLib n1_old
                                            [node_n1, node_a])))) m = Some sub"
    and u: "inUse (subnetAllocator (snd (serveExistingNodes demoLib n1_old [node_n1, node_a]))) =
              inUse (subnetAllocator n1_old) @ new"
    and l: "length new = card (Name ` set [node_n1, node_a] - fst ` set (subnets (registry n1_old)))"
    by blast
  let ?W = "withFaults n1_old [False, False, True]"
  let ?oc1 = "snd (serveExistingNodes demoLib ?W [node_n1])"
  have p: "fst (serveExistingNodes demoLib ?W [node_n1]) = None"
    by (simp add: serveExistingNodes_Cons GetSubnet_fst node_defs n1_old_def demo_defs)
  have g: "isl (fst (registry_GetSubnet ?oc1 (Name node_a)))"
    by (simp add: serveExistingNodes_Cons GetSubnet_fst node_defs n1_old_def demo_defs)
  have e: "fst (addNode demoLib (snd (registry_GetSubnet ?oc1 (Name node_a)))
                  (Name node_a) (IP node_a)) = Some RegistryUnavailable"
    by (simp add: serveExistingNodes_Cons GetSubnet_fst addNode_fst CreateSubnet_fst
          node_defs n1_old_def demo_defs)
  have r: "serveExistingNodes demoLib ?W ([node_n1] @ node_a # [node_b]) =
             (Some RegistryUnavailable,
              snd (addNode demoLib (snd (registry_GetSubnet ?oc1 (Name node_a)))
                     (Name node_a) (IP node_a)))"
    by (rule sweep_allocates_for_uncovered [where L = demoLib and oc = ?W and pre = "[node_n1]"
                and failing = node_a and e = RegistryUnavailable and rest = "[node_b]"
                and ns = "[]",
                THEN conjunct2, THEN conjunct2, THEN conjunct1, rule_format])
       (intro conjI p g e)
  have na: "Name node_a = ''a''" "IP node_a = ''1.1.1.2''" by (simp_all add: node_defs)
  have r1: "fst (serveExistingNodes demoLib ?W [node_n1, node_a, node_b]) =
              Some RegistryUnavailable"
    and r2: "snd (serveExistingNodes demoLib ?W [node_n1, node_a, node_b]) =
               snd (addNode demoLib (snd (registry_GetSubnet ?oc1 ''a'')) ''a'' ''1.1.1.2'')"
    using r na by simp_all
  have b: "map_of (subnets (registry (snd (addNode demoLib
              (snd (registry_GetSubnet ?oc1 ''a'')) ''a'' ''1.1.1.2'')))) ''b'' = None"
    by (simp add: serveExistingNodes_Cons GetSubnet_fst addNode_fst addNode_subnets
          CreateSubnet_fst node_defs n1_old_def demo_defs)
  have x: "\<exists>pre node rest.
      [node_n1, node_a, node_b] = pre @ node # rest \<and>
      fst (serveExistingNodes demoLib ?W pre) = None \<and>
      fst (addNode demoLib
             (snd (registry_GetSubnet (snd (serveExistingNodes demoLib ?W pre)) (Name node)))
             (Name node) (IP node)) = Some RegistryUnavailable"
    using sweep_allocates_for_uncovered [where L = demoLib and oc = ?W
            and ns = "[node_n1, node_a, node_b]" and e = RegistryUnavailable
            and pre = "[]" and failing = node_a and rest = "[]",
            THEN conjunct2, THEN conjunct2, THEN conjunct2, rule_format, OF r1]
    by blast
  have g': "isl (fst (registry_GetSubnet ?oc1 ''a''))" using g na by simp
  show ?thesis
    apply (intro conjI)
    using ok s0 a k u l c p g' r1 r2 b x by simp_all
qed

subsection \<open>Calls made for a node that has a record\<close>

lemma covered_no_allocation:
  assumes nf: "\<not> nextCallFails oc" and m: "map_of (subnets (registry oc)) n = Some sub"
  shows "subnetAllocator (watchNodes_event L oc (addedEvent n ip)) = subnetAllocator oc"
    and "CallGetNetwork \<notin>
           set (drop (length (calls oc)) (calls (watchNodes_event L oc (addedEvent n ip))))"
    and "NodeIP sub = ip \<longrightarrow>
           subnets (registry (watchNodes_event L oc (addedEvent n ip))) = subnets (registry oc) \<and>
           calls (watchNodes_event L oc (addedEvent n ip)) = calls oc @ [CallGetSubnet n]"
proof -
  have g: "fst (registry_GetSubnet oc n) = Inr sub"
    using nf m by (simp add: GetSubnet_fst)
  show "subnetAllocator (watchNodes_event L oc (addedEvent n ip)) = subnetAllocator oc"
    by (simp add: watchNodes_event_Added g split: option.splits)
  show "CallGetNetwork \<notin>
           set (drop (length (calls oc)) (calls (watchNodes_event L oc (addedEvent n ip))))"
    by (simp add: watchNodes_event_Added g split: option.splits)
  show "NodeIP sub = ip \<longrightarrow>
           subnets (registry (watchNodes_event L oc (addedEvent n ip))) = subnets (registry oc) \<and>
           calls (watchNodes_event L oc (addedEvent n ip)) = calls oc @ [CallGetSubnet n]"
    by (simp add: watchNodes_event_Added g)
qed

lemma addNode_create_accepted:
  assumes f: "faults (registry oc) = []" and unc: "map_of (subnets (registry oc)) n = None"
    and c: "CallCreateSubnet m s \<in> set (drop (length (calls oc)) (calls (snd (addNode L oc n ip))))"
  shows "m = n \<and> fst (addNode L oc n ip) = None \<and>
         map_of (subnets (registry (snd (addNode L oc n ip)))) m = Some s"
proof (cases "freeNetwork (subnetAllocator oc)")
  case None
  then show ?thesis using c by (simp add: addNode_calls)
next
  case (Some sn)
  show ?thesis
  proof (cases "ip = '''' \<or> ip = ''127.0.0.1''")
    case True
    then show ?thesis using c Some by (simp add: addNode_calls)
  next
    case False
    then have e: "m = n" "s = \<lparr>NodeIP = ip, SubnetCIDR = IPNetString L sn\<rparr>"
      using c Some by (simp_all add: addNode_calls)
    have ok: "fst (addNode L oc n ip) = None"
      using False Some f unc
      by (simp add: addNode_fst CreateSubnet_fst nextCallFails_def)
    have "subnets (registry (snd (addNode L oc n ip))) = subnets (registry oc) @ [(n, s)]"
      using ok Some e by (simp add: addNode_subnets)
    then show ?thesis using unc e ok by (simp add: map_add_def)
  qed
qed

lemma event_create_accepted:
  assumes f: "faults (registry oc) = []"
    and c: "CallCreateSubnet m s \<in>
              set (drop (length (calls oc)) (calls (watchNodes_event L oc ev)))"
  shows "map_of (subnets (registry (watchNodes_event L oc ev))) m = Some s"
proof (cases "NodeEventType ev")
  case Deleted
  then have e: "ev = deletedEvent (Name (EventNode ev)) (IP (EventNode ev))"
    by (simp add: deletedEvent_def)
  have "CallCreateSubnet m s \<notin>
          set (drop (length (calls oc))
                 (calls (watchNodes_event L oc
                           (deletedEvent (Name (EventNode ev)) (IP (EventNode ev))))))"
    by (simp add: watchNodes_event_Deleted deleteNode_snd ReleaseNetwork_fields
          split: sum.splits option.splits)
  with c e show ?thesis by simp
next
  case Added
  let ?n = "Name (EventNode ev)"
  let ?ip = "IP (EventNode ev)"
  let ?oc1 = "snd (registry_GetSubnet oc ?n)"
  from Added have e: "ev = addedEvent ?n ?ip" by (simp add: addedEvent_def)
  have nf: "\<not> nextCallFails oc" using f by (simp add: nextCallFails_def)
  have c': "CallCreateSubnet m s \<in>
              set (drop (length (calls oc)) (calls (watchNodes_event L oc (addedEvent ?n ?ip))))"
    using c e by simp
  show ?thesis
  proof (cases "map_of (subnets (registry oc)) ?n")
    case None
    then have g: "fst (registry_GetSubnet oc ?n) = Inl SubnetNotFound"
      using nf by (simp add: GetSubnet_fst)
    obtain cs where cs: "calls (snd (addNode L ?oc1 ?n ?ip)) = calls ?oc1 @ cs"
      using addNode_calls_ex [of L ?oc1 ?n ?ip] by auto
    have "CallCreateSubnet m s \<in> set cs"
      using c' cs by (simp add: watchNodes_event_Added g)
    then have "CallCreateSubnet m s \<in>
                 set (drop (length (calls ?oc1)) (calls (snd (addNode L ?oc1 ?n ?ip))))"
      using cs by simp
    then have "map_of (subnets (registry (snd (addNode L ?oc1 ?n ?ip)))) m = Some s"
      using f None by (intro addNode_create_accepted [THEN conjunct2, THEN conjunct2]) simp_all
    then show ?thesis
      by (subst e) (simp add: watchNodes_event_Added g)
  next
    case (Some sub)
    then have g: "fst (registry_GetSubnet oc ?n) = Inr sub"
      using nf by (simp add: GetSubnet_fst)
    show ?thesis
    proof (cases "NodeIP sub = ?ip")
      case True
      then show ?thesis using c' by (simp add: watchNodes_event_Added g)
    next
      case False
      have d: "fst (registry_DeleteSubnet ?oc1 ?n) = None"
        using Some f by (simp add: DeleteSubnet_fst nextCallFails_def)
      have e2: "m = ?n" "s = sub\<lparr>NodeIP := ?ip\<rparr>"
        using c' False by (simp_all add: watchNodes_event_Added g d)
      have gone: "map_of (filter (\<lambda>kv. fst kv \<noteq> ?n) (subnets (registry oc))) ?n = None"
        by (auto simp: map_of_eq_None_iff)
      have cr: "fst (registry_CreateSubnet (snd (registry_DeleteSubnet ?oc1 ?n)) ?n
                       (sub\<lparr>NodeIP := ?ip\<rparr>)) = None"
        using f d gone by (simp add: CreateSubnet_fst nextCallFails_def)
      show ?thesis
        using False e2 cr d
        by (subst e) (simp add: watchNodes_event_Added g map_of_filter_append_same
              del: map_of_append)
    qed
  qed
qed

lemma sweep_create_accepted:
  assumes f: "faults (registry oc) = []"
    and c: "CallCreateSubnet m s \<in>
              set (drop (length (calls oc)) (calls (snd (serveExistingNodes L oc ns))))"
  shows "map_of (subnets (registry (snd (serveExistingNodes L oc ns)))) m = Some s"
  using f c
proof (induction ns arbitrary: oc)
  case Nil
  then show ?case by simp
next
  case (Cons node rest)
  let ?n = "Name node"
  let ?oc1 = "snd (registry_GetSubnet oc ?n)"
  let ?oc2 = "snd (addNode L ?oc1 ?n (IP node))"
  have nf: "\<not> nextCallFails oc" using Cons.prems(1) by (simp add: nextCallFails_def)
  have f1: "faults (registry ?oc1) = []" using Cons.prems(1) by simp
  have f2: "faults (registry ?oc2) = []" using f1 by (simp add: addNode_faults)
  show ?case
  proof (cases "map_of (subnets (registry oc)) ?n")
    case (Some sub)
    then have g: "fst (registry_GetSubnet oc ?n) = Inr sub"
      using nf by (simp add: GetSubnet_fst)
    have s: "serveExistingNodes L oc (node # rest) = serveExistingNodes L ?oc1 rest"
      using g by (simp add: serveExistingNodes_Cons)
    obtain cs where cs: "calls (snd (serveExistingNodes L ?oc1 rest)) = calls ?oc1 @ cs"
      using serveExistingNodes_calls [of L ?oc1 rest] by auto
    have "CallCreateSubnet m s \<in> set cs"
      using Cons.prems(2) cs by (simp add: s)
    then have "CallCreateSubnet m s \<in>
                 set (drop (length (calls ?oc1)) (calls (snd (serveExistingNodes L ?oc1 rest))))"
      using cs by simp
    from Cons.IH [OF f1 this] show ?thesis by (simp add: s)
  next
    case None
    then have g: "fst (registry_GetSubnet oc ?n) = Inl SubnetNotFound"
      using nf by (simp add: GetSubnet_fst)
    have unc: "map_of (subnets (registry ?oc1)) ?n = None" using None by simp
    obtain as where as: "calls ?oc2 = calls ?oc1 @ as"
      using addNode_calls_ex [of L ?oc1 ?n "IP node"] by auto
    have acc: "CallCreateSubnet m s \<in> set as \<Longrightarrow>
                 map_of (subnets (registry ?oc2)) m = Some s"
    proof -
      assume "CallCreateSubnet m s \<in> set as"
      then have "CallCreateSubnet m s \<in> set (drop (length (calls ?oc1)) (calls ?oc2))"
        using as by simp
      from addNode_create_accepted [OF f1 unc this] show ?thesis by blast
    qed
    show ?thesis
    proof (cases "fst (addNode L ?oc1 ?n (IP node))")
      case (Some e)
      then have s: "serveExistingNodes L oc (node # rest) = (Some e, ?oc2)"
        using g by (simp add: serveExistingNodes_Cons)
      have "CallCreateSubnet m s \<in> set as"
        using Cons.prems(2) as by (simp add: s)
      then show ?thesis using acc by (simp add: s)
    next
      case None
      then have s: "serveExistingNodes L oc (node # rest) = serveExistingNodes L ?oc2 rest"
        using g by (simp add: serveExistingNodes_Cons)
      obtain cs where cs: "calls (snd (serveExistingNodes L ?oc2 rest)) = calls ?oc2 @ cs"
        using serveExistingNodes_calls [of L ?oc2 rest] by auto
      have mem: "CallCreateSubnet m s \<in> set as \<or> CallCreateSubnet m s \<in> set cs"
        using Cons.prems(2) cs as by (simp add: s)
      then show ?thesis
      proof
        assume "CallCreateSubnet m s \<in> set as"
        then have "map_of (subnets (registry ?oc2)) m = Some s" by (rule acc)
        then have "map_of (subnets (registry (snd (serveExistingNodes L ?oc2 rest)))) m = Some s"
          using sweep_only_uncovered [OF f2, of L rest] by blast
        then show ?thesis by (simp add: s)
      next
        assume "CallCreateSubnet m s \<in> set cs"
        then have "CallCreateSubnet m s \<in>
                     set (drop (length (calls ?oc2)) (calls (snd (serveExistingNodes L ?oc2 rest))))"
          using cs by simp
        from Cons.IH [OF f2 this] show ?thesis by (simp add: s)
      qed
    qed
  qed
qed

subsection \<open>C3: one Subnet per node, and the replayed Added event\<close>

text \<open>
  C3 says that at most one live Subnet record exists per node name, and that an Added
  event for a node whose Subnet exists with the same IP changes neither the registry nor
  the allocator, no second allocation being performed for that name. The handler reads
  every error of the lookup as a missing Subnet. On the small cluster \<open>n1\<close> holds the
  record with IP 1.1.1.1 and 10.1.5.0/24: when the lookup of the Added event for \<open>n1\<close>
  with IP 1.1.1.1 fails, the handler calls \<open>addNode\<close>, which takes 10.1.0.0/24 from the
  allocator for \<open>n1\<close> and asks the registry for a second record; the registry refuses it
  and the network stays in the exclusion set.
\<close>

theorem replayed_added_allocates_again:
  "map_of (subnets (registry (withFaults n1_old [True]))) ''n1'' =
     Some \<lparr>NodeIP = ''1.1.1.1'', SubnetCIDR = ''10.1.5.0/24''\<rparr> \<and>
   inUse (subnetAllocator (withFaults n1_old [True])) = [net_10_1_5] \<and>
   calls (withFaults n1_old [True]) = [] \<and>
   inUse (subnetAllocator (watchNodes_event demoLib (withFaults n1_old [True])
                             (addedEvent ''n1'' ''1.1.1.1''))) = [net_10_1_5, net_10_1_0] \<and>
   subnetAllocator (watchNodes_event demoLib (withFaults n1_old [True])
                      (addedEvent ''n1'' ''1.1.1.1'')) \<noteq>
     subnetAllocator (withFaults n1_old [True]) \<and>
   calls (watchNodes_event demoLib (withFaults n1_old [True]) (addedEvent ''n1'' ''1.1.1.1'')) =
     [CallGetSubnet ''n1'', CallGetNetwork,
      CallCreateSubnet ''n1'' \<lparr>NodeIP = ''1.1.1.1'', SubnetCIDR = ''10.1.0.0/24''\<rparr>] \<and>
   subnets (registry (watchNodes_event demoLib (withFaults n1_old [True])
                        (addedEvent ''n1'' ''1.1.1.1''))) =
     [(''n1'', \<lparr>NodeIP = ''1.1.1.1'', SubnetCIDR = ''10.1.5.0/24''\<rparr>)]"
proof -
  have u: "inUse (subnetAllocator (watchNodes_event demoLib (withFaults n1_old [True])
                                     (addedEvent ''n1'' ''1.1.1.1''))) =
             [net_10_1_5, net_10_1_0]"
    by (simp add: watchNodes_event_Added GetSubnet_fst addNode_inUse n1_old_def demo_defs)
  have u0: "inUse (subnetAllocator (withFaults n1_old [True])) = [net_10_1_5]"
    by (simp add: n1_old_def demo_defs)
  have ne: "subnetAllocator (watchNodes_event demoLib (withFaults n1_old [True])
                               (addedEvent ''n1'' ''1.1.1.1'')) \<noteq>
            subnetAllocator (withFaults n1_old [True])"
  proof
    assume "subnetAllocator (watchNodes_event demoLib (withFaults n1_old [True])
                               (addedEvent ''n1'' ''1.1.1.1'')) =
            subnetAllocator (withFaults n1_old [True])"
    then have "[net_10_1_5, net_10_1_0] = [net_10_1_5]" using u u0 by simp
    then show False by simp
  qed
  have r: "map_of (subnets (registry (withFaults n1_old [True]))) ''n1'' =
             Some \<lparr>NodeIP = ''1.1.1.1'', SubnetCIDR = ''10.1.5.0/24''\<rparr>"
          "calls (withFaults n1_old [True]) = []"
    by (simp_all add: n1_old_def demo_defs)
  have c: "calls (watchNodes_event demoLib (withFaults n1_old [True])
                    (addedEvent ''n1'' ''1.1.1.1'')) =
             [CallGetSubnet ''n1'', CallGetNetwork,
              CallCreateSubnet ''n1'' \<lparr>NodeIP = ''1.1.1.1'', SubnetCIDR = ''10.1.0.0/24''\<rparr>]"
    by (simp add: watchNodes_event_Added GetSubnet_fst addNode_calls n1_old_def demo_defs)
  have s: "subnets (registry (watchNodes_event demoLib (withFaults n1_old [True])
                                (addedEvent ''n1'' ''1.1.1.1''))) =
             [(''n1'', \<lparr>NodeIP = ''1.1.1.1'', SubnetCIDR = ''10.1.5.0/24''\<rparr>)]"
    by (simp add: watchNodes_event_Added GetSubnet_fst addNode_subnets addNode_fst
          CreateSubnet_fst n1_old_def demo_defs)
  show ?thesis
    using r u0 u ne c s by (intro conjI)
qed

text \<open>
  C3 as amended: the names of the registry's records, when distinct, stay distinct after
  every sequence of node events and after the sweep, whatever registry calls fail; this
  rests on the registry, which holds the records by node name and refuses a second one.
  On the side of the handlers: when the lookup of an Added event does not fail and the
  node has a Subnet record, the handler leaves the allocator as it was and makes no
  \<open>GetNetwork\<close> call, whatever the IP of the event; if moreover the IP of the event is
  that of the record, the records are unchanged and the lookup is the only call made.
  And when no registry call fails, the handlers never ask for a second record: every
  \<open>CreateSubnet\<close> call made while handling a node event, and every one made by the sweep,
  is accepted by the registry, so that afterwards the record of that name is the one
  just created.
\<close>

theorem single_assignment_when_lookup_succeeds:
  "(distinct (map fst (subnets (registry oc))) \<longrightarrow>
      distinct (map fst (subnets (registry (foldl (watchNodes_event L) oc evs)))) \<and>
      distinct (map fst (subnets (registry (snd (serveExistingNodes L oc ns)))))) \<and>
   (\<not> nextCallFails oc \<and> map_of (subnets (registry oc)) n = Some sub \<longrightarrow>
      subnetAllocator (watchNodes_event L oc (addedEvent n ip)) = subnetAllocator oc \<and>
      CallGetNetwork \<notin>
        set (drop (length (calls oc)) (calls (watchNodes_event L oc (addedEvent n ip)))) \<and>
      (NodeIP sub = ip \<longrightarrow>
         subnets (registry (watchNodes_event L oc (addedEvent n ip))) = subnets (registry oc) \<and>
         calls (watchNodes_event L oc (addedEvent n ip)) = calls oc @ [CallGetSubnet n])) \<and>
   (faults (registry oc) = [] \<longrightarrow>
      (\<forall>m s. CallCreateSubnet m s \<in>
                set (drop (length (calls oc)) (calls (watchNodes_event L oc ev))) \<longrightarrow>
             map_of (subnets (registry (watchNodes_event L oc ev))) m = Some s) \<and>
      (\<forall>m s. CallCreateSubnet m s \<in>
                set (drop (length (calls oc)) (calls (snd (serveExistingNodes L oc ns)))) \<longrightarrow>
             map_of (subnets (registry (snd (serveExistingNodes L oc ns)))) m = Some s))"
  apply (intro conjI)
  subgoal by (simp add: foldl_watchNodes_distinct serveExistingNodes_distinct)
  subgoal using covered_no_allocation [where oc = oc and n = n and sub = sub and L = L and ip = ip]
    by blast
  subgoal using event_create_accepted [where oc = oc and L = L and ev = ev]
      sweep_create_accepted [where oc = oc and L = L and ns = ns]
    by blast
  done

theorem single_assignment_when_lookup_succeeds_witness:
  "distinct (map fst (subnets (registry n1_old))) \<and>
   distinct (map fst (subnets (registry
     (foldl (watchNodes_event demoLib) n1_old
        [addedEvent ''n1'' ''1.1.1.1'', addedEvent ''n2'' ''2.2.2.2''])))) \<and>
   \<not> nextCallFails n1_old \<and>
   map_of (subnets (registry n1_old)) ''n1'' =
     Some \<lparr>NodeIP = ''1.1.1.1'', SubnetCIDR = ''10.1.5.0/24''\<rparr> \<and>
   subnets (registry (watchNodes_event demoLib n1_old (addedEvent ''n1'' ''1.1.1.1''))) =
     [(''n1'', \<lparr>NodeIP = ''1.1.1.1'', SubnetCIDR = ''10.1.5.0/24''\<rparr>)] \<and>
   inUse (subnetAllocator (watchNodes_event demoLib n1_old (addedEvent ''n1'' ''1.1.1.1''))) =
     [net_10_1_5] \<and>
   calls (watchNodes_event demoLib n1_old (addedEvent ''n1'' ''1.1.1.1'')) =
     [CallGetSubnet ''n1''] \<and>
   faults (registry n1_old) = [] \<and>
   CallCreateSubnet ''a'' \<lparr>NodeIP = ''1.1.1.2'', SubnetCIDR = ''10.1.0.0/24''\<rparr> \<in>
     set (calls (watchNodes_event demoLib n1_old (addedEvent ''a'' ''1.1.1.2''))) \<and>
   map_of (subnets (registry (watchNodes_event demoLib n1_old (addedEvent ''a'' ''1.1.1.2''))))
     ''a'' = Some \<lparr>NodeIP = ''1.1.1.2'', SubnetCIDR = ''10.1.0.0/24''\<rparr>"
proof -
  let ?sub = "\<lparr>NodeIP = ''1.1.1.1'', SubnetCIDR = ''10.1.5.0/24''\<rparr>"
  let ?new = "\<lparr>NodeIP = ''1.1.1.2'', SubnetCIDR = ''10.1.0.0/24''\<rparr>"
  note t = single_assignment_when_lookup_succeeds
             [where oc = n1_old and L = demoLib and n = "''n1''" and sub = ?sub
                and ip = "''1.1.1.1''"
                and evs = "[addedEvent ''n1'' ''1.1.1.1'', addedEvent ''n2'' ''2.2.2.2'']"
                and ns = "[]" and ev = "addedEvent ''a'' ''1.1.1.2''"]
  have h1: "distinct (map fst (subnets (registry n1_old)))"
    by (simp add: n1_old_def demo_defs)
  have h2: "\<not> nextCallFails n1_old \<and> map_of (subnets (registry n1_old)) ''n1'' = Some ?sub"
    by (simp add: nextCallFails_def n1_old_def demo_defs)
  have h3: "faults (registry n1_old) = []"
    by (simp add: n1_old_def demo_defs)
  have s0: "subnets (registry n1_old) = [(''n1'', ?sub)]" "calls n1_old = []"
           "inUse (subnetAllocator n1_old) = [net_10_1_5]"
    by (simp_all add: n1_old_def demo_defs)
  have m: "CallCreateSubnet ''a'' ?new \<in>
             set (calls (watchNodes_event demoLib n1_old (addedEvent ''a'' ''1.1.1.2'')))"
    by (simp add: watchNodes_event_Added GetSubnet_fst addNode_calls n1_old_def demo_defs)
  have a: "distinct (map fst (subnets (registry
             (foldl (watchNodes_event demoLib) n1_old
                [addedEvent ''n1'' ''1.1.1.1'', addedEvent ''n2'' ''2.2.2.2'']))))"
    using t [THEN conjunct1] h1 by blast
  have b: "subnetAllocator (watchNodes_event demoLib n1_old (addedEvent ''n1'' ''1.1.1.1'')) =
             subnetAllocator n1_old"
          "subnets (registry (watchNodes_event demoLib n1_old (addedEvent ''n1'' ''1.1.1.1''))) =
             subnets (registry n1_old)"
          "calls (watchNodes_event demoLib n1_old (addedEvent ''n1'' ''1.1.1.1'')) =
             calls n1_old @ [CallGetSubnet ''n1'']"
    using t [THEN conjunct2, THEN conjunct1] h2 by simp_all
  have c: "map_of (subnets (registry (watchNodes_event demoLib n1_old
                                        (addedEvent ''a'' ''1.1.1.2'')))) ''a'' = Some ?new"
    using t [THEN conjunct2, THEN conjunct2, rule_format, OF h3, THEN conjunct1, rule_format,
             of "''a''" ?new] m s0(2)
    by simp
  show ?thesis
    using h1 h2 h3 s0 m a b c by simp
qed

subsection \<open>Agreement of registry and allocator\<close>








lemma distinct_filter_live:
  "distinct (map f xs) \<Longrightarrow> distinct (map f (filter P xs))"
  by (simp add: distinct_map_filter)







lemma parseAll_printed:
  assumes "\<forall>s \<in> set ss. \<exists>u \<in> A. s = IPNetString L u"
    and "\<forall>u \<in> A. ParseCIDR L (IPNetString L u) = Some u"
  shows "\<exists>ns. parseAll L ss = Some ns \<and> set ns \<subseteq> A \<and> map (IPNetString L) ns = ss"
  using assms(1)
proof (induction ss)
  case Nil
  show ?case by simp
next
  case (Cons s ss)
  from Cons.prems obtain u where u: "u \<in> A" "s = IPNetString L u" by auto
  then have p: "ParseCIDR L s = Some u" using assms(2) by simp
  from Cons.IH Cons.prems obtain ns where
    "parseAll L ss = Some ns" "set ns \<subseteq> A" "map (IPNetString L) ns = ss" by auto
  with p u show ?case by simp
qed

lemma pairwiseDisjoint_distinct:
  assumes "distinct ns" and "\<forall>x \<in> set ns. \<forall>y \<in> set ns. x \<noteq> y \<longrightarrow> \<not> overlaps x y"
  shows "pairwiseDisjoint ns"
  using assms by (induction ns) (auto simp: list_all_iff)


lemma consistent_liveDisjoint:
  assumes c: "consistent L oc"
  shows "liveDisjoint L oc"
proof -
  let ?A = "set (inUse (subnetAllocator oc))"
  from c have c2: "distinct (liveCIDRs oc)"
    and c3: "set (liveCIDRs oc) = IPNetString L ` ?A"
    and rt: "\<forall>u \<in> ?A. ParseCIDR L (IPNetString L u) = Some u"
    and c5: "\<forall>x \<in> ?A. \<forall>y \<in> ?A. x \<noteq> y \<longrightarrow> \<not> overlaps x y"
    by (simp_all add: consistent_def)
  have "\<forall>s \<in> set (liveCIDRs oc). \<exists>u \<in> ?A. s = IPNetString L u"
    using c3 by auto
  from parseAll_printed [OF this rt] obtain ns where
    p: "parseAll L (liveCIDRs oc) = Some ns" and sub: "set ns \<subseteq> ?A"
    and m: "map (IPNetString L) ns = liveCIDRs oc" by blast
  have "distinct (map (IPNetString L) ns)" using c2 m by simp
  then have d: "distinct ns" by (simp add: distinct_map)
  have "pairwiseDisjoint ns"
    using d c5 sub by (intro pairwiseDisjoint_distinct) auto
  with p show ?thesis by (simp add: liveDisjoint_def)
qed




lemma getters_frame [simp]:
  "subnets (registry (snd (registry_GetSubnets oc))) = subnets (registry oc)"
  "faults (registry (snd (registry_GetSubnets oc))) = drop 1 (faults (registry oc))"
  "clusterNetworkCIDR (registry (snd (registry_GetSubnets oc))) = clusterNetworkCIDR (registry oc)"
  "hostSubnetLength (registry (snd (registry_GetSubnets oc))) = hostSubnetLength (registry oc)"
  "subnets (registry (snd (registry_GetClusterNetworkCIDR oc))) = subnets (registry oc)"
  "faults (registry (snd (registry_GetClusterNetworkCIDR oc))) = drop 1 (faults (registry oc))"
  "hostSubnetLength (registry (snd (registry_GetClusterNetworkCIDR oc))) =
     hostSubnetLength (registry oc)"
  "subnets (registry (snd (registry_GetHostSubnetLength oc))) = subnets (registry oc)"
  "faults (registry (snd (registry_GetHostSubnetLength oc))) = drop 1 (faults (registry oc))"
  "subnets (registry (snd (registry_GetNodes oc))) = subnets (registry oc)"
  "faults (registry (snd (registry_GetNodes oc))) = drop 1 (faults (registry oc))"
  "subnetAllocator (snd (registry_GetNodes oc)) = subnetAllocator oc"
  "nodes (registry (snd (registry_GetSubnets oc))) = nodes (registry oc)"
  "nodes (registry (snd (registry_GetClusterNetworkCIDR oc))) = nodes (registry oc)"
  "nodes (registry (snd (registry_GetHostSubnetLength oc))) = nodes (registry oc)"
  "subnetAllocator (snd (registry_GetSubnets oc)) = subnetAllocator oc"
  "subnetAllocator (snd (registry_GetClusterNetworkCIDR oc)) = subnetAllocator oc"
  "subnetAllocator (snd (registry_GetHostSubnetLength oc)) = subnetAllocator oc"
  by (simp_all add: registry_GetSubnets_def registry_GetClusterNetworkCIDR_def
        registry_GetHostSubnetLength_def registry_GetNodes_def split_def)




subsection \<open>The agreement without the valid-IP condition\<close>












subsection \<open>C1: no overlap, and allocator state = registry state\<close>








end
